(* ===== verification/Prelude.thy ===== *)
theory Prelude
  imports Main "HOL-Library.Word"
begin

text \<open>
  Shared vocabulary of the development.  Python's \<open>bytes\<close> are lists of
  8-bit words; Python's \<open>str\<close> is a sequence of Unicode code points, modelled
  as a list of natural numbers (every code point of a Python string lies in
  \<open>0 .. 0x10FFFF\<close>, see \<open>pystr_wf\<close>).  Source literals such as
  \<open>"Hello CC3000"\<close> are written with \<open>py_lit\<close>, which reads an ASCII
  literal of Isabelle as the code points it spells.  Decimal printing
  (\<open>dec_digits\<close>, \<open>py_str_int\<close>) is shared by Python's \<open>str(int)\<close>,
  by \<open>print\<close> and by the C library's \<open>"%u"\<close> used when an IPv4 address is
  turned into text.
\<close>

type_synonym byte = "8 word"
type_synonym bytes = "byte list"
type_synonym pystr = "nat list"

named_theorems model_defs
  "definitions of the model unfolded when it is evaluated on concrete input"

definition py_lit :: "string \<Rightarrow> pystr" where
  "py_lit s = map of_char s"

definition pystr_wf :: "pystr \<Rightarrow> bool" where
  "pystr_wf s \<longleftrightarrow> (\<forall>c \<in> set s. c \<le> 0x10FFFF)"

definition is_digit :: "nat \<Rightarrow> bool" where
  "is_digit c \<longleftrightarrow> 48 \<le> c \<and> c \<le> 57"

text \<open>Decimal digits of a natural number, most significant first, no leading zero.\<close>

fun dec_digits :: "nat \<Rightarrow> pystr" where
  "dec_digits n = (if n < 10 then [48 + n] else dec_digits (n div 10) @ [48 + n mod 10])"

declare dec_digits.simps [simp del]

text \<open>Python's \<open>str\<close> of an \<open>int\<close>: an optional minus sign and the decimal digits.\<close>

definition py_str_int :: "int \<Rightarrow> pystr" where
  "py_str_int i = (if i < 0 then 45 # dec_digits (nat (- i)) else dec_digits (nat i))"

text \<open>
  The arguments the server passes to \<open>print\<close> are strings and ints.
  \<open>print(*args)\<close> writes \<open>str\<close> of each argument, separated by one space
  (\<open>sep=' '\<close>) and followed by a newline (\<open>end='\\n'\<close>); stdout is the
  list of code points written so far.
\<close>

datatype pyval = PyStr pystr | PyInt int

fun py_str :: "pyval \<Rightarrow> pystr" where
  "py_str (PyStr s) = s"
| "py_str (PyInt i) = py_str_int i"

fun join_sep :: "pystr \<Rightarrow> pystr list \<Rightarrow> pystr" where
  "join_sep sep [] = []"
| "join_sep sep [x] = x"
| "join_sep sep (x # xs) = x @ sep @ join_sep sep xs"

definition py_print :: "pyval list \<Rightarrow> pystr \<Rightarrow> pystr" where
  "py_print args out = out @ join_sep [32] (map py_str args) @ [10]"

declare py_lit_def [model_defs] py_str_int_def [model_defs] dec_digits.simps [model_defs] py_print_def [model_defs]

subsection \<open>Decimal digits\<close>

lemma dec_digits_small [simp]: "n < 10 \<Longrightarrow> dec_digits n = [48 + n]"
  by (simp add: dec_digits.simps)

lemma dec_digits_big: "\<not> n < 10 \<Longrightarrow> dec_digits n = dec_digits (n div 10) @ [48 + n mod 10]"
  by (simp add: dec_digits.simps)

lemma dec_digits_nonempty [simp]: "dec_digits n \<noteq> []"
  by (cases "n < 10") (simp_all add: dec_digits_big)

lemma dec_digits_all_digits: "c \<in> set (dec_digits n) \<Longrightarrow> is_digit c"
proof (induction n rule: dec_digits.induct)
  case (1 n)
  show ?case
  proof (cases "n < 10")
    case True
    with "1.prems" show ?thesis by (simp add: is_digit_def)
  next
    case False
    with "1.prems" have "c \<in> set (dec_digits (n div 10)) \<or> c = 48 + n mod 10"
      by (auto simp: dec_digits_big)
    with "1.IH" False show ?thesis by (auto simp: is_digit_def)
  qed
qed

lemma dec_digits_first_nonzero:
  "0 < n \<Longrightarrow> hd (dec_digits n) \<noteq> 48"
proof (induction n rule: dec_digits.induct)
  case (1 n)
  then show ?case
    by (cases "n < 10") (simp_all add: dec_digits_big)
qed

lemma dec_digits_length_le: "n < 10 ^ k \<Longrightarrow> length (dec_digits n) \<le> max 1 k"
proof (induction n arbitrary: k rule: dec_digits.induct)
  case (1 n)
  show ?case
  proof (cases "n < 10")
    case True
    then show ?thesis by simp
  next
    case False
    then obtain j where k: "k = Suc j"
      using "1.prems" by (cases k) auto
    with "1.prems" have "n div 10 < 10 ^ j"
      by (simp add: less_mult_imp_div_less mult.commute)
    with "1.IH" False have "length (dec_digits (n div 10)) \<le> max 1 j"
      by blast
    moreover from False "1.prems" k have "0 < j"
      by (cases j) auto
    ultimately show ?thesis
      using False k by (simp add: dec_digits_big)
  qed
qed

subsection \<open>Lists, options and sums\<close>

lemma pystr_wf_append [simp]: "pystr_wf (xs @ ys) \<longleftrightarrow> pystr_wf xs \<and> pystr_wf ys"
  by (auto simp: pystr_wf_def)

lemma pystr_wf_Cons [simp]: "pystr_wf (x # xs) \<longleftrightarrow> x \<le> 0x10FFFF \<and> pystr_wf xs"
  by (simp add: pystr_wf_def)

lemma pystr_wf_Nil [simp]: "pystr_wf []"
  by (simp add: pystr_wf_def)

lemma py_lit_Cons [simp]: "py_lit (c # s) = of_char c # py_lit s"
  by (simp add: py_lit_def)

lemma py_lit_Nil [simp]: "py_lit [] = []"
  by (simp add: py_lit_def)

lemma py_lit_append [simp]: "py_lit (s @ t) = py_lit s @ py_lit t"
  by (simp add: py_lit_def)

lemma py_lit_ascii: "c \<in> set (py_lit s) \<Longrightarrow> c < 256"
  by (auto simp: py_lit_def)

lemma py_lit_wf: "pystr_wf (py_lit s)"
proof -
  have "(of_char c :: nat) \<le> 0x10FFFF" for c :: char
  proof -
    have "(of_char c :: nat) < 256" by (rule nat_of_char_less_256)
    then show ?thesis by linarith
  qed
  then show ?thesis by (auto simp: pystr_wf_def py_lit_def)
qed

lemma sum_case_Inr_iff:
  "(case x of Inl e \<Rightarrow> Inl (f e) | Inr v \<Rightarrow> Inr (g v)) = Inr w \<longleftrightarrow> (\<exists>v. x = Inr v \<and> w = g v)"
  by (cases x) auto


subsection \<open>Arithmetic on code points and bytes\<close>

text \<open>
  Splitting a code point into 6-bit groups, as UTF-8 does, and reading
  bytes built with \<open>of_nat\<close> back with \<open>unat\<close>.
\<close>

lemma mod_4096_split: "(c::nat) div 0x40 mod 0x40 * 0x40 + c mod 0x40 = c mod 0x1000"
  using mod_mult2_eq [of c 64 64] by simp

lemma mod_40000_split: "(c::nat) div 0x1000 mod 0x40 * 0x1000 + c mod 0x1000 = c mod 0x40000"
  using mod_mult2_eq [of c 4096 64] by simp

lemma div_split: "(c::nat) div k = c div (k * 64) * 64 + c div k mod 64"
  by (metis div_mult_mod_eq div_mult2_eq mult.commute)

lemma div_64_64: "(c::nat) div 4096 = c div 64 div 64"
  by (simp add: div_mult2_eq [of c 64 64, simplified])

lemma div_4096_64: "(c::nat) div 262144 = c div 4096 div 64"
  by (simp add: div_mult2_eq [of c 4096 64, simplified])

lemma divmod64 [simp]:
  "d < 64 \<Longrightarrow> (x * 64 + d) div 64 = (x::nat)"
  "d < 64 \<Longrightarrow> (x * 64 + d) mod 64 = (d::nat)"
  by simp_all

lemma cp3_recompose: "c div 4096 * 4096 + (c div 64 mod 64 * 64 + c mod 64) = (c::nat)"
  by (simp add: mod_4096_split)

lemma cp4_recompose: "c div 262144 * 262144 + (c div 4096 mod 64 * 4096 + (c div 64 mod 64 * 64 + c mod 64)) = (c::nat)"
  by (simp add: mod_4096_split mod_40000_split)

lemma surrogate_row_low_half: "(c::nat) div 4096 = 13 \<Longrightarrow> c < 55296 \<Longrightarrow> c div 64 mod 64 < 32"
proof -
  assume a: "c div 4096 = 13" "c < 55296"
  have "c div 64 = c div 4096 * 64 + c div 64 mod 64" using div_split [of c 64] by simp
  moreover have "64 * (c div 64) \<le> c" by simp
  ultimately show ?thesis using a by linarith
qed

lemma last_plane_row: "(c::nat) div 262144 = 4 \<Longrightarrow> c \<le> 1114111 \<Longrightarrow> c div 4096 mod 64 < 16"
proof -
  assume a: "c div 262144 = 4" "c \<le> 1114111"
  have "c div 4096 = c div 262144 * 64 + c div 4096 mod 64" using div_split [of c 4096] by simp
  moreover have "4096 * (c div 4096) \<le> c" by simp
  ultimately show ?thesis using a by linarith
qed

lemma add_small_Suc: "i + 2 = Suc (Suc i)" "i + 3 = Suc (Suc (Suc i))" "i + 4 = Suc (Suc (Suc (Suc i)))"
  by simp_all

lemma unat_byte_of_nat: "n < 256 \<Longrightarrow> unat (of_nat n :: byte) = n"
  by (simp add: unat_of_nat)

lemma byte_of_nat_eqI: "n = unat b \<Longrightarrow> (of_nat n :: byte) = b"
  by simp

lemma byte_unat_add: "unat b = k + x \<Longrightarrow> of_nat k + of_nat x = (b :: byte)"
proof -
  assume "unat b = k + x"
  then have "(of_nat (unat b) :: byte) = of_nat (k + x)" by simp
  then show ?thesis by simp
qed

end
