(* ===== verification/Utf8.thy ===== *)
theory Utf8
  imports Prelude
begin

text \<open>
  Python's default text codec, as the server uses it: \<open>MSG_EXP.encode()\<close> and
  \<open>MSG_TX.encode()\<close> (\<open>udp_server.py\<close> lines 13 and 16) call \<open>str.encode\<close>
  with encoding \<open>utf-8\<close> and error handler \<open>strict\<close>; \<open>data_bytes.decode()\<close>
  (line 29) calls \<open>bytes.decode\<close> with the same defaults.  The model follows
  CPython's UTF-8 codec: the encoder writes one to four bytes per code point and
  raises \<open>UnicodeEncodeError\<close> on a lone surrogate; the decoder accepts exactly
  the well-formed byte sequences of Unicode (RFC 3629: no overlong forms, no
  surrogates, nothing above U+10FFFF) and raises \<open>UnicodeDecodeError\<close> with
  one of CPython's three reasons at the position of the offending start byte.
  Both are total functions into \<open>unicode_error + _\<close>: the raise is the \<open>Inl\<close>
  value.
\<close>

datatype decode_reason = InvalidStartByte | InvalidContinuationByte | UnexpectedEndOfData

datatype unicode_error =
    UnicodeEncodeError nat \<comment> \<open>position of the lone surrogate: surrogates not allowed\<close>
  | UnicodeDecodeError decode_reason nat \<comment> \<open>reason, position of the start byte\<close>

definition is_surrogate :: "nat \<Rightarrow> bool" where
  "is_surrogate c \<longleftrightarrow> 0xD800 \<le> c \<and> c \<le> 0xDFFF"

subsection \<open>Encoder\<close>

text \<open>
  One code point, as CPython's \<open>utf8_encoder\<close> writes it:
  \<open>0xc0 | (ch >> 6)\<close>, \<open>0x80 | (ch & 0x3f)\<close> and so on.  The bits or-ed
  together are disjoint, so the or is an addition and the shifts and masks are
  \<open>div\<close> and \<open>mod\<close> by powers of two.
\<close>

definition utf8_encode_cp :: "nat \<Rightarrow> bytes" where
  "utf8_encode_cp c =
     (if c < 0x80 then [of_nat c]
      else if c < 0x800 then [of_nat (0xC0 + c div 0x40), of_nat (0x80 + c mod 0x40)]
      else if c < 0x10000 then
        [of_nat (0xE0 + c div 0x1000), of_nat (0x80 + c div 0x40 mod 0x40),
         of_nat (0x80 + c mod 0x40)]
      else
        [of_nat (0xF0 + c div 0x40000), of_nat (0x80 + c div 0x1000 mod 0x40),
         of_nat (0x80 + c div 0x40 mod 0x40), of_nat (0x80 + c mod 0x40)])"

fun utf8_encode_from :: "nat \<Rightarrow> pystr \<Rightarrow> unicode_error + bytes" where
  "utf8_encode_from i [] = Inr []"
| "utf8_encode_from i (c # cs) =
     (if is_surrogate c then Inl (UnicodeEncodeError i)
      else case utf8_encode_from (Suc i) cs of
             Inl e \<Rightarrow> Inl e
           | Inr bs \<Rightarrow> Inr (utf8_encode_cp c @ bs))"

text \<open>\<open>s.encode()\<close>: UTF-8, strict.\<close>

definition str_encode :: "pystr \<Rightarrow> unicode_error + bytes" where
  "str_encode s = utf8_encode_from 0 s"

subsection \<open>Decoder\<close>

definition utf8_cont :: "byte \<Rightarrow> bool" where
  "utf8_cont b \<longleftrightarrow> 0x80 \<le> unat b \<and> unat b \<le> 0xBF"

text \<open>
  The admissible second byte depends on the start byte (Unicode Table 3-7):
  after \<open>E0\<close> only \<open>A0..BF\<close> (no overlong form), after \<open>ED\<close> only \<open>80..9F\<close>
  (no surrogate), after \<open>F0\<close> only \<open>90..BF\<close>, after \<open>F4\<close> only \<open>80..8F\<close>
  (nothing above U+10FFFF).
\<close>

definition utf8_second_ok :: "byte \<Rightarrow> byte \<Rightarrow> bool" where
  "utf8_second_ok b0 b1 \<longleftrightarrow>
     (if unat b0 = 0xE0 then 0xA0 \<le> unat b1 \<and> unat b1 \<le> 0xBF
      else if unat b0 = 0xED then 0x80 \<le> unat b1 \<and> unat b1 \<le> 0x9F
      else if unat b0 = 0xF0 then 0x90 \<le> unat b1 \<and> unat b1 \<le> 0xBF
      else if unat b0 = 0xF4 then 0x80 \<le> unat b1 \<and> unat b1 \<le> 0x8F
      else utf8_cont b1)"

definition py_cons :: "nat \<Rightarrow> unicode_error + pystr \<Rightarrow> unicode_error + pystr" where
  "py_cons c r = (case r of Inl e \<Rightarrow> Inl e | Inr s \<Rightarrow> Inr (c # s))"

text \<open>
  The decoding loop of CPython's \<open>unicode_decode_utf8\<close>: an ASCII byte is a
  code point; \<open>80..C1\<close> and \<open>F5..FF\<close> are invalid start bytes; otherwise the
  continuation bytes are checked one by one, the first bad one giving
  \<open>invalid continuation byte\<close> and the end of the input before the sequence
  is complete giving \<open>unexpected end of data\<close>.  The code point is computed
  as CPython does, \<open>(ch << 6) + ch2 - ((0xC0 << 6) + 0x80)\<close> and its longer
  analogues.
\<close>

fun utf8_decode_from :: "nat \<Rightarrow> bytes \<Rightarrow> unicode_error + pystr" where
  "utf8_decode_from i [] = Inr []"
| "utf8_decode_from i (b0 # bs) =
     (if unat b0 < 0x80 then py_cons (unat b0) (utf8_decode_from (Suc i) bs)
      else if unat b0 < 0xC2 \<or> 0xF4 < unat b0 then Inl (UnicodeDecodeError InvalidStartByte i)
      else (case bs of
        [] \<Rightarrow> Inl (UnicodeDecodeError UnexpectedEndOfData i)
      | b1 # bs1 \<Rightarrow>
        if \<not> utf8_second_ok b0 b1 then Inl (UnicodeDecodeError InvalidContinuationByte i)
        else if unat b0 < 0xE0 then
          py_cons (unat b0 * 0x40 + unat b1 - (0xC0 * 0x40 + 0x80))
            (utf8_decode_from (i + 2) bs1)
        else (case bs1 of
          [] \<Rightarrow> Inl (UnicodeDecodeError UnexpectedEndOfData i)
        | b2 # bs2 \<Rightarrow>
          if \<not> utf8_cont b2 then Inl (UnicodeDecodeError InvalidContinuationByte i)
          else if unat b0 < 0xF0 then
            py_cons (unat b0 * 0x1000 + unat b1 * 0x40 + unat b2
                       - (0xE0 * 0x1000 + 0x80 * 0x40 + 0x80))
              (utf8_decode_from (i + 3) bs2)
          else (case bs2 of
            [] \<Rightarrow> Inl (UnicodeDecodeError UnexpectedEndOfData i)
          | b3 # bs3 \<Rightarrow>
            if \<not> utf8_cont b3 then Inl (UnicodeDecodeError InvalidContinuationByte i)
            else
              py_cons (unat b0 * 0x40000 + unat b1 * 0x1000 + unat b2 * 0x40 + unat b3
                         - (0xF0 * 0x40000 + 0x80 * 0x1000 + 0x80 * 0x40 + 0x80))
                (utf8_decode_from (i + 4) bs3)))))"

text \<open>\<open>b.decode()\<close>: UTF-8, strict.\<close>

definition bytes_decode :: "bytes \<Rightarrow> unicode_error + pystr" where
  "bytes_decode bs = utf8_decode_from 0 bs"

declare str_encode_def [model_defs] bytes_decode_def [model_defs]
  utf8_encode_cp_def [model_defs] utf8_cont_def [model_defs]
  utf8_second_ok_def [model_defs] py_cons_def [model_defs] is_surrogate_def [model_defs]

lemma py_cons_simps [simp]:
  "py_cons c (Inl e) = Inl e"
  "py_cons c (Inr s) = Inr (c # s)"
  by (simp_all add: py_cons_def)

lemma py_cons_Inr_iff: "py_cons c r = Inr s \<longleftrightarrow> (\<exists>s'. r = Inr s' \<and> s = c # s')"
  by (cases r) auto


subsection \<open>Encoding one code point, then decoding it\<close>

lemma utf8_encode_cp_1:
  assumes "c < 0x80"
  obtains b0 where "utf8_encode_cp c = [b0]" "unat b0 = c"
proof
  show "utf8_encode_cp c = [of_nat c]" using assms by (simp add: utf8_encode_cp_def)
  show "unat (of_nat c :: byte) = c" by (rule unat_byte_of_nat) (use assms in simp)
qed

lemma utf8_encode_cp_2:
  assumes "0x80 \<le> c" "c < 0x800"
  obtains b0 b1 where "utf8_encode_cp c = [b0, b1]"
    "unat b0 = 0xC0 + c div 0x40" "unat b1 = 0x80 + c mod 0x40"
proof
  show "utf8_encode_cp c = [of_nat (0xC0 + c div 0x40), of_nat (0x80 + c mod 0x40)]"
    using assms by (simp add: utf8_encode_cp_def)
  show "unat (of_nat (0xC0 + c div 0x40) :: byte) = 0xC0 + c div 0x40"
    by (rule unat_byte_of_nat) (use assms in simp)
  show "unat (of_nat (0x80 + c mod 0x40) :: byte) = 0x80 + c mod 0x40"
    by (rule unat_byte_of_nat) simp
qed

lemma utf8_encode_cp_3:
  assumes "0x800 \<le> c" "c < 0x10000"
  obtains b0 b1 b2 where "utf8_encode_cp c = [b0, b1, b2]"
    "unat b0 = 0xE0 + c div 0x1000" "unat b1 = 0x80 + c div 0x40 mod 0x40"
    "unat b2 = 0x80 + c mod 0x40"
proof
  show "utf8_encode_cp c = [of_nat (0xE0 + c div 0x1000), of_nat (0x80 + c div 0x40 mod 0x40),
      of_nat (0x80 + c mod 0x40)]"
    using assms by (simp add: utf8_encode_cp_def)
  show "unat (of_nat (0xE0 + c div 0x1000) :: byte) = 0xE0 + c div 0x1000"
    by (rule unat_byte_of_nat) (use assms in simp)
  show "unat (of_nat (0x80 + c div 0x40 mod 0x40) :: byte) = 0x80 + c div 0x40 mod 0x40"
    by (rule unat_byte_of_nat) simp
  show "unat (of_nat (0x80 + c mod 0x40) :: byte) = 0x80 + c mod 0x40"
    by (rule unat_byte_of_nat) simp
qed

lemma utf8_encode_cp_4:
  assumes "0x10000 \<le> c" "c \<le> 0x10FFFF"
  obtains b0 b1 b2 b3 where "utf8_encode_cp c = [b0, b1, b2, b3]"
    "unat b0 = 0xF0 + c div 0x40000" "unat b1 = 0x80 + c div 0x1000 mod 0x40"
    "unat b2 = 0x80 + c div 0x40 mod 0x40" "unat b3 = 0x80 + c mod 0x40"
proof
  show "utf8_encode_cp c = [of_nat (0xF0 + c div 0x40000), of_nat (0x80 + c div 0x1000 mod 0x40),
      of_nat (0x80 + c div 0x40 mod 0x40), of_nat (0x80 + c mod 0x40)]"
    using assms by (simp add: utf8_encode_cp_def)
  show "unat (of_nat (0xF0 + c div 0x40000) :: byte) = 0xF0 + c div 0x40000"
    by (rule unat_byte_of_nat) (use assms in simp)
  show "unat (of_nat (0x80 + c div 0x1000 mod 0x40) :: byte) = 0x80 + c div 0x1000 mod 0x40"
    by (rule unat_byte_of_nat) simp
  show "unat (of_nat (0x80 + c div 0x40 mod 0x40) :: byte) = 0x80 + c div 0x40 mod 0x40"
    by (rule unat_byte_of_nat) simp
  show "unat (of_nat (0x80 + c mod 0x40) :: byte) = 0x80 + c mod 0x40"
    by (rule unat_byte_of_nat) simp
qed

lemma utf8_decode_encode_cp:
  assumes "c \<le> 0x10FFFF" "\<not> is_surrogate c"
  shows "utf8_decode_from i (utf8_encode_cp c @ rest)
           = py_cons c (utf8_decode_from (i + length (utf8_encode_cp c)) rest)"
proof -
  have m: "c mod 64 \<le> 63" "c div 64 mod 64 \<le> 63" "c div 4096 mod 64 \<le> 63" by simp_all
  consider "c < 0x80" | "0x80 \<le> c" "c < 0x800" | "0x800 \<le> c" "c < 0x10000" | "0x10000 \<le> c"
    by linarith
  then show ?thesis
  proof cases
    case 1
    then obtain b0 where "utf8_encode_cp c = [b0]" "unat b0 = c" by (rule utf8_encode_cp_1)
    with 1 show ?thesis by simp
  next
    case 2
    then obtain b0 b1 where e: "utf8_encode_cp c = [b0, b1]"
      and u: "unat b0 = 0xC0 + c div 0x40" "unat b1 = 0x80 + c mod 0x40"
      by (rule utf8_encode_cp_2)
    have l: "i + length (utf8_encode_cp c) = i + 2" by (simp add: e)
    have "2 \<le> c div 0x40" "c div 0x40 < 32" using 2 by auto
    with m show ?thesis unfolding l by (simp add: e u utf8_second_ok_def utf8_cont_def)
  next
    case 3
    then obtain b0 b1 b2 where e: "utf8_encode_cp c = [b0, b1, b2]"
      and u: "unat b0 = 0xE0 + c div 0x1000" "unat b1 = 0x80 + c div 0x40 mod 0x40"
        "unat b2 = 0x80 + c mod 0x40"
      by (rule utf8_encode_cp_3)
    have l: "i + length (utf8_encode_cp c) = i + 3" by (simp add: e)
    have "c div 0x1000 < 16" using 3 by auto
    moreover have "c div 0x1000 = 0 \<Longrightarrow> 32 \<le> c div 0x40 \<and> c div 0x40 \<le> 63" using 3 by auto
    moreover have "c div 0x40 mod 0x40 \<le> 31" if d: "c div 0x1000 = 13"
    proof -
      from d have "c div 4096 < 14" by simp
      then have "c < 14 * 4096" by (simp add: div_less_iff_less_mult)
      with assms(2) have "c < 55296" by (simp add: is_surrogate_def)
      with d have "c div 64 mod 64 < 32" by (rule surrogate_row_low_half)
      then show ?thesis by simp
    qed
    ultimately show ?thesis using m unfolding l
      by (simp add: e u utf8_second_ok_def utf8_cont_def cp3_recompose)
  next
    case 4
    then obtain b0 b1 b2 b3 where e: "utf8_encode_cp c = [b0, b1, b2, b3]"
      and u: "unat b0 = 0xF0 + c div 0x40000" "unat b1 = 0x80 + c div 0x1000 mod 0x40"
        "unat b2 = 0x80 + c div 0x40 mod 0x40" "unat b3 = 0x80 + c mod 0x40"
      using assms(1) by (rule utf8_encode_cp_4)
    have l: "i + length (utf8_encode_cp c) = i + 4" by (simp add: e)
    have "c div 0x40000 \<le> 4" using assms(1) by auto
    moreover have "c div 0x40000 = 0 \<Longrightarrow> 16 \<le> c div 0x1000 \<and> c div 0x1000 \<le> 63" using 4 by auto
    moreover have "c div 0x40000 = 4 \<Longrightarrow> c div 0x1000 mod 0x40 \<le> 15"
      using assms(1) last_plane_row by fastforce
    ultimately show ?thesis using m 4 unfolding l
      by (simp add: e u utf8_second_ok_def utf8_cont_def cp4_recompose)
  qed
qed

subsection \<open>The encoder fails exactly on surrogates\<close>

lemma utf8_encode_from_no_surrogate:
  "\<forall>c \<in> set s. \<not> is_surrogate c \<Longrightarrow> utf8_encode_from i s = Inr (concat (map utf8_encode_cp s))"
  by (induction s arbitrary: i) auto

lemma utf8_encode_from_Inr_iff:
  "utf8_encode_from i s = Inr bs \<longleftrightarrow>
     (\<forall>c \<in> set s. \<not> is_surrogate c) \<and> bs = concat (map utf8_encode_cp s)"
proof
  assume "utf8_encode_from i s = Inr bs"
  then show "(\<forall>c \<in> set s. \<not> is_surrogate c) \<and> bs = concat (map utf8_encode_cp s)"
    by (induction s arbitrary: i bs) (auto split: if_splits sum.splits)
next
  assume "(\<forall>c \<in> set s. \<not> is_surrogate c) \<and> bs = concat (map utf8_encode_cp s)"
  then show "utf8_encode_from i s = Inr bs" by (simp add: utf8_encode_from_no_surrogate)
qed

lemma utf8_encode_from_Inl:
  "utf8_encode_from i s = Inl e \<Longrightarrow> \<exists>c \<in> set s. is_surrogate c"
  by (induction s arbitrary: i) (auto split: if_splits sum.splits)

lemma utf8_decode_concat:
  "pystr_wf s \<Longrightarrow> \<forall>c \<in> set s. \<not> is_surrogate c \<Longrightarrow>
     utf8_decode_from i (concat (map utf8_encode_cp s)) = Inr s"
proof (induction s arbitrary: i)
  case Nil
  then show ?case by simp
next
  case (Cons c s)
  then show ?case by (simp add: utf8_decode_encode_cp)
qed

subsection \<open>Every decoded sequence is the encoding of its code point\<close>

lemma utf8_second_ok_cont: "utf8_second_ok b0 b1 \<Longrightarrow> utf8_cont b1"
  by (auto simp: utf8_second_ok_def utf8_cont_def split: if_splits)

lemma utf8_decoded_cp1:
  assumes "unat b0 < 0x80"
  shows "utf8_encode_cp (unat b0) = [b0]"
  using assms by (simp add: utf8_encode_cp_def)

lemma utf8_decoded_cp2:
  assumes "0xC2 \<le> unat b0" "unat b0 < 0xE0" "utf8_cont b1"
  defines "c \<equiv> unat b0 * 0x40 + unat b1 - (0xC0 * 0x40 + 0x80)"
  shows "utf8_encode_cp c = [b0, b1] \<and> c \<le> 0x10FFFF \<and> \<not> is_surrogate c"
proof -
  define x where "x = unat b0 - 0xC0"
  define y where "y = unat b1 - 0x80"
  have y: "y < 64" using assms(3) unfolding y_def utf8_cont_def by arith
  have x: "2 \<le> x" "x < 32" using assms(1,2) by (simp_all add: x_def)
  have c: "c = x * 64 + y"
    using assms by (simp add: utf8_cont_def x_def y_def)
  have r: "0x80 \<le> c" "c < 0x800" using x y unfolding c by linarith+
  have d: "c div 64 = x" "c mod 64 = y" using y unfolding c by simp_all
  have "0xC0 + x = unat b0" "0x80 + y = unat b1"
    using assms(1,3) by (simp_all add: x_def y_def utf8_cont_def)
  then show ?thesis using r
    by (auto simp: utf8_encode_cp_def d is_surrogate_def intro!: byte_of_nat_eqI)
qed

lemma utf8_decoded_cp3:
  assumes "0xE0 \<le> unat b0" "unat b0 < 0xF0" "utf8_second_ok b0 b1" "utf8_cont b2"
  defines "c \<equiv> unat b0 * 0x1000 + unat b1 * 0x40 + unat b2 - (0xE0 * 0x1000 + 0x80 * 0x40 + 0x80)"
  shows "utf8_encode_cp c = [b0, b1, b2] \<and> c \<le> 0x10FFFF \<and> \<not> is_surrogate c"
proof -
  define x where "x = unat b0 - 0xE0"
  define y where "y = unat b1 - 0x80"
  define z where "z = unat b2 - 0x80"
  have b1: "utf8_cont b1" using assms(3) by (rule utf8_second_ok_cont)
  have yz: "y < 64" "z < 64" using b1 assms(4) unfolding y_def z_def utf8_cont_def by arith+
  have x: "x < 16" using assms(2) unfolding x_def by arith
  have x0: "x = 0 \<Longrightarrow> 32 \<le> y" and x13: "x = 13 \<Longrightarrow> y \<le> 31"
    using assms(1,3) unfolding x_def y_def utf8_second_ok_def by (auto split: if_splits)
  have e: "unat b0 = 0xE0 + x" "unat b1 = 0x80 + y" "unat b2 = 0x80 + z"
    using assms(1,4) b1 unfolding x_def y_def z_def utf8_cont_def by arith+
  have c: "c = (x * 64 + y) * 64 + z"
    unfolding c_def e by (simp add: algebra_simps)
  have r: "0x800 \<le> c" "c < 0x10000"
    using x x0 yz unfolding c by (cases "x = 0"; simp)+
  have ns: "\<not> is_surrogate c"
  proof (cases "x = 13")
    case True
    with x13 yz show ?thesis unfolding c is_surrogate_def by simp
  next
    case False
    then have "x \<le> 12 \<or> 14 \<le> x" by linarith
    with yz show ?thesis unfolding c is_surrogate_def by auto
  qed
  have d1: "c div 64 = x * 64 + y" "c mod 64 = z"
    using yz unfolding c by (simp only: divmod64)+
  have d: "c div 4096 = x" "c div 64 mod 64 = y" "c mod 64 = z"
    using yz d1 by (simp_all only: div_64_64 divmod64)
  have "0xE0 + of_nat x = b0" "0x80 + of_nat y = b1" "0x80 + of_nat z = b2"
    using byte_unat_add [OF e(1)] byte_unat_add [OF e(2)] byte_unat_add [OF e(3)] by simp_all
  then show ?thesis using r ns by (simp add: utf8_encode_cp_def d)
qed

lemma utf8_decoded_cp4:
  assumes "0xF0 \<le> unat b0" "unat b0 \<le> 0xF4" "utf8_second_ok b0 b1" "utf8_cont b2" "utf8_cont b3"
  defines "c \<equiv> unat b0 * 0x40000 + unat b1 * 0x1000 + unat b2 * 0x40 + unat b3
                 - (0xF0 * 0x40000 + 0x80 * 0x1000 + 0x80 * 0x40 + 0x80)"
  shows "utf8_encode_cp c = [b0, b1, b2, b3] \<and> c \<le> 0x10FFFF \<and> \<not> is_surrogate c"
proof -
  define x where "x = unat b0 - 0xF0"
  define y where "y = unat b1 - 0x80"
  define z where "z = unat b2 - 0x80"
  define w where "w = unat b3 - 0x80"
  have b1: "utf8_cont b1" using assms(3) by (rule utf8_second_ok_cont)
  have yzw: "y < 64" "z < 64" "w < 64"
    using b1 assms(4,5) unfolding y_def z_def w_def utf8_cont_def by arith+
  have x: "x \<le> 4" using assms(2) unfolding x_def by arith
  have x0: "x = 0 \<Longrightarrow> 16 \<le> y" and x4: "x = 4 \<Longrightarrow> y \<le> 15"
    using assms(1,2,3) unfolding x_def y_def utf8_second_ok_def by (auto split: if_splits)
  have e: "unat b0 = 0xF0 + x" "unat b1 = 0x80 + y" "unat b2 = 0x80 + z" "unat b3 = 0x80 + w"
    using assms(1,4,5) b1 unfolding x_def y_def z_def w_def utf8_cont_def by arith+
  have c: "c = ((x * 64 + y) * 64 + z) * 64 + w"
    unfolding c_def e by (simp add: algebra_simps)
  have r: "0x10000 \<le> c" "c \<le> 0x10FFFF"
    using x x0 x4 yzw unfolding c by (cases "x = 0"; cases "x = 4"; simp)+
  have d1: "c div 64 = (x * 64 + y) * 64 + z" "c mod 64 = w"
    using yzw unfolding c by (simp only: divmod64)+
  have d2: "c div 4096 = x * 64 + y"
    using yzw d1 by (simp only: div_64_64 divmod64)
  have d: "c div 262144 = x" "c div 4096 mod 64 = y" "c div 64 mod 64 = z" "c mod 64 = w"
    using yzw d1 d2 by (simp_all only: div_64_64 div_4096_64 divmod64)
  have "0xF0 + of_nat x = b0" "0x80 + of_nat y = b1" "0x80 + of_nat z = b2" "0x80 + of_nat w = b3"
    using byte_unat_add [OF e(1)] byte_unat_add [OF e(2)] byte_unat_add [OF e(3)]
      byte_unat_add [OF e(4)] by simp_all
  then show ?thesis using r by (simp add: utf8_encode_cp_def d is_surrogate_def)
qed

lemma utf8_decode_from_Cons_Inr:
  assumes "utf8_decode_from i (b0 # bs) = Inr s"
  obtains c rest s' where "b0 # bs = utf8_encode_cp c @ rest" "s = c # s'"
    "utf8_decode_from (i + length (utf8_encode_cp c)) rest = Inr s'"
    "c \<le> 0x10FFFF" "\<not> is_surrogate c"
proof -
  consider (one) "unat b0 < 0x80"
    | (two) b1 bs1 where "bs = b1 # bs1" "0xC2 \<le> unat b0" "unat b0 < 0xE0" "utf8_second_ok b0 b1"
    | (three) b1 b2 bs2 where "bs = b1 # b2 # bs2" "0xE0 \<le> unat b0" "unat b0 < 0xF0"
        "utf8_second_ok b0 b1" "utf8_cont b2"
    | (four) b1 b2 b3 bs3 where "bs = b1 # b2 # b3 # bs3" "0xF0 \<le> unat b0" "unat b0 \<le> 0xF4"
        "utf8_second_ok b0 b1" "utf8_cont b2" "utf8_cont b3"
    using assms by (auto split: if_splits list.splits)
  then show ?thesis
  proof cases
    case one
    with assms obtain s' where "utf8_decode_from (Suc i) bs = Inr s'" "s = unat b0 # s'"
      by (auto simp: py_cons_Inr_iff)
    with one show ?thesis
      by (intro that [of "unat b0" bs s']) (simp_all add: utf8_decoded_cp1 utf8_encode_cp_def is_surrogate_def)
  next
    case two
    define c where "c = unat b0 * 0x40 + unat b1 - (0xC0 * 0x40 + 0x80)"
    have e: "utf8_encode_cp c = [b0, b1]" "c \<le> 0x10FFFF" "\<not> is_surrogate c"
      using utf8_decoded_cp2 [of b0 b1] two utf8_second_ok_cont unfolding c_def by blast+
    from assms two obtain s' where "utf8_decode_from (i + 2) bs1 = Inr s'" "s = c # s'"
      by (auto simp: py_cons_Inr_iff c_def)
    with two e show ?thesis by (intro that [of c bs1 s']) (simp_all add: add_small_Suc)
  next
    case three
    define c where "c = unat b0 * 0x1000 + unat b1 * 0x40 + unat b2
                       - (0xE0 * 0x1000 + 0x80 * 0x40 + 0x80)"
    have e: "utf8_encode_cp c = [b0, b1, b2]" "c \<le> 0x10FFFF" "\<not> is_surrogate c"
      using utf8_decoded_cp3 [of b0 b1 b2] three unfolding c_def by blast+
    from assms three obtain s' where "utf8_decode_from (i + 3) bs2 = Inr s'" "s = c # s'"
      by (auto simp: py_cons_Inr_iff c_def)
    with three e show ?thesis by (intro that [of c bs2 s']) (simp_all add: add_small_Suc)
  next
    case four
    define c where "c = unat b0 * 0x40000 + unat b1 * 0x1000 + unat b2 * 0x40 + unat b3
                       - (0xF0 * 0x40000 + 0x80 * 0x1000 + 0x80 * 0x40 + 0x80)"
    have e: "utf8_encode_cp c = [b0, b1, b2, b3]" "c \<le> 0x10FFFF" "\<not> is_surrogate c"
      using utf8_decoded_cp4 [of b0 b1 b2 b3] four unfolding c_def by blast+
    from assms four obtain s' where "utf8_decode_from (i + 4) bs3 = Inr s'" "s = c # s'"
      by (auto simp: py_cons_Inr_iff c_def)
    with four e show ?thesis by (intro that [of c bs3 s']) (simp_all add: add_small_Suc)
  qed
qed

lemma utf8_decode_from_Inr:
  "utf8_decode_from i bs = Inr s \<Longrightarrow>
     concat (map utf8_encode_cp s) = bs \<and> pystr_wf s \<and> (\<forall>c \<in> set s. \<not> is_surrogate c)"
proof (induction bs arbitrary: i s rule: length_induct)
  case (1 bs)
  show ?case
  proof (cases bs)
    case Nil
    with "1.prems" show ?thesis by simp
  next
    case (Cons b0 bs')
    with "1.prems" have "utf8_decode_from i (b0 # bs') = Inr s" by simp
    then obtain c rest s' where e: "b0 # bs' = utf8_encode_cp c @ rest" "s = c # s'"
      "utf8_decode_from (i + length (utf8_encode_cp c)) rest = Inr s'"
      "c \<le> 0x10FFFF" "\<not> is_surrogate c"
      by (rule utf8_decode_from_Cons_Inr)
    have "utf8_encode_cp c \<noteq> []" by (simp add: utf8_encode_cp_def)
    then have "length rest < length bs" using e(1) Cons by (metis length_append less_add_same_cancel2 length_greater_0_conv)
    with "1.IH" e(3) have "concat (map utf8_encode_cp s') = rest \<and> pystr_wf s' \<and>
        (\<forall>c \<in> set s'. \<not> is_surrogate c)" by blast
    with e Cons show ?thesis by simp
  qed
qed

subsection \<open>ASCII text and the bytes a decoded string came from\<close>

lemma utf8_encode_cp_ascii: "c < 0x80 \<Longrightarrow> utf8_encode_cp c = [of_nat c]"
  by (simp add: utf8_encode_cp_def)

lemma concat_utf8_encode_ascii:
  "\<forall>c \<in> set s. c < 0x80 \<Longrightarrow> concat (map utf8_encode_cp s) = map of_nat s"
  by (induction s) (simp_all add: utf8_encode_cp_ascii)

lemma ascii_no_surrogate: "\<forall>c \<in> set s. c < 0x80 \<Longrightarrow> \<forall>c \<in> set s. \<not> is_surrogate c"
  by (auto simp: is_surrogate_def)

lemma ascii_wf: "\<forall>c \<in> set s. c < 0x80 \<Longrightarrow> pystr_wf s"
  by (auto simp: pystr_wf_def)

lemma str_encode_ascii: "\<forall>c \<in> set s. c < 0x80 \<Longrightarrow> str_encode s = Inr (map of_nat s)"
  by (simp add: str_encode_def utf8_encode_from_no_surrogate ascii_no_surrogate
      concat_utf8_encode_ascii)

lemma bytes_decode_ascii: "\<forall>c \<in> set s. c < 0x80 \<Longrightarrow> bytes_decode (map of_nat s) = Inr s"
  using utf8_decode_concat [of s 0] by (simp add: bytes_decode_def ascii_wf ascii_no_surrogate
      concat_utf8_encode_ascii)

lemma bytes_decode_Inr_concat: "bytes_decode bs = Inr s \<Longrightarrow> concat (map utf8_encode_cp s) = bs"
  using utf8_decode_from_Inr [of 0 bs s] by (simp add: bytes_decode_def)

lemma bytes_decode_eq_ascii_iff:
  assumes "bytes_decode bs = Inr s" "\<forall>c \<in> set t. c < 0x80"
  shows "s = t \<longleftrightarrow> bs = map of_nat t"
proof
  assume "s = t"
  with assms show "bs = map of_nat t"
    using bytes_decode_Inr_concat concat_utf8_encode_ascii by metis
next
  assume "bs = map of_nat t"
  with assms show "s = t" using bytes_decode_ascii by simp
qed

lemma utf8_decode_ascii_prefix:
  "\<forall>c \<in> set s. c < 0x80 \<Longrightarrow>
     utf8_decode_from i (map of_nat s @ rest) =
       (case utf8_decode_from (i + length s) rest of Inl e \<Rightarrow> Inl e | Inr t \<Rightarrow> Inr (s @ t))"
proof (induction s arbitrary: i)
  case Nil
  then show ?case by (cases "utf8_decode_from i rest") simp_all
next
  case (Cons c s)
  then have "unat (of_nat c :: byte) = c" by (simp add: unat_byte_of_nat)
  with Cons show ?case by (cases "utf8_decode_from (Suc (i + length s)) rest") simp_all
qed


subsection \<open>Where the encoder fails, and decoding valid prefixes\<close>

lemma utf8_encode_from_Inl_iff:
  "utf8_encode_from k s = Inl e \<longleftrightarrow>
     (\<exists>i < length s. e = UnicodeEncodeError (k + i) \<and> is_surrogate (s ! i) \<and>
        (\<forall>j < i. \<not> is_surrogate (s ! j)))"
proof (induction s arbitrary: k)
  case Nil
  then show ?case by simp
next
  case (Cons c s)
  show ?case
  proof (cases "is_surrogate c")
    case True
    have "(\<exists>i < length (c # s). e = UnicodeEncodeError (k + i) \<and> is_surrogate ((c # s) ! i) \<and>
        (\<forall>j < i. \<not> is_surrogate ((c # s) ! j))) \<longleftrightarrow> e = UnicodeEncodeError k"
    proof
      assume "\<exists>i < length (c # s). e = UnicodeEncodeError (k + i) \<and> is_surrogate ((c # s) ! i) \<and>
        (\<forall>j < i. \<not> is_surrogate ((c # s) ! j))"
      then obtain i where "e = UnicodeEncodeError (k + i)" "\<forall>j < i. \<not> is_surrogate ((c # s) ! j)"
        by blast
      with True show "e = UnicodeEncodeError k" by (cases i) auto
    next
      assume "e = UnicodeEncodeError k"
      with True show "\<exists>i < length (c # s). e = UnicodeEncodeError (k + i) \<and> is_surrogate ((c # s) ! i) \<and>
        (\<forall>j < i. \<not> is_surrogate ((c # s) ! j))" by force
    qed
    with True show ?thesis by auto
  next
    case False
    have "(\<exists>i < length (c # s). e = UnicodeEncodeError (k + i) \<and> is_surrogate ((c # s) ! i) \<and>
        (\<forall>j < i. \<not> is_surrogate ((c # s) ! j))) \<longleftrightarrow>
      (\<exists>i < length s. e = UnicodeEncodeError (Suc k + i) \<and> is_surrogate (s ! i) \<and>
        (\<forall>j < i. \<not> is_surrogate (s ! j)))"
    proof
      assume "\<exists>i < length (c # s). e = UnicodeEncodeError (k + i) \<and> is_surrogate ((c # s) ! i) \<and>
        (\<forall>j < i. \<not> is_surrogate ((c # s) ! j))"
      then obtain i where i: "i < length (c # s)" "e = UnicodeEncodeError (k + i)"
        "is_surrogate ((c # s) ! i)" "\<forall>j < i. \<not> is_surrogate ((c # s) ! j)" by blast
      with False obtain i' where "i = Suc i'" by (cases i) auto
      with i show "\<exists>i < length s. e = UnicodeEncodeError (Suc k + i) \<and> is_surrogate (s ! i) \<and>
        (\<forall>j < i. \<not> is_surrogate (s ! j))" by force
    next
      assume "\<exists>i < length s. e = UnicodeEncodeError (Suc k + i) \<and> is_surrogate (s ! i) \<and>
        (\<forall>j < i. \<not> is_surrogate (s ! j))"
      then obtain i where i: "i < length s" "e = UnicodeEncodeError (Suc k + i)"
        "is_surrogate (s ! i)" "\<forall>j < i. \<not> is_surrogate (s ! j)" by blast
      have "\<forall>j < Suc i. \<not> is_surrogate ((c # s) ! j)"
        using i(4) False by (auto simp: less_Suc_eq_0_disj)
      with i show "\<exists>i < length (c # s). e = UnicodeEncodeError (k + i) \<and> is_surrogate ((c # s) ! i) \<and>
        (\<forall>j < i. \<not> is_surrogate ((c # s) ! j))" by (intro exI [of _ "Suc i"]) simp
    qed
    moreover have "utf8_encode_from k (c # s) = Inl e \<longleftrightarrow> utf8_encode_from (Suc k) s = Inl e"
      using False by (cases "utf8_encode_from (Suc k) s") simp_all
    ultimately show ?thesis using Cons.IH [of "Suc k"] by simp
  qed
qed

lemma utf8_decode_valid_prefix:
  "pystr_wf s \<Longrightarrow> \<forall>c \<in> set s. \<not> is_surrogate c \<Longrightarrow>
     utf8_decode_from i (concat (map utf8_encode_cp s) @ rest) =
       (case utf8_decode_from (i + length (concat (map utf8_encode_cp s))) rest of
          Inl e \<Rightarrow> Inl e | Inr t \<Rightarrow> Inr (s @ t))"
proof (induction s arbitrary: i)
  case Nil
  then show ?case by (cases "utf8_decode_from i rest") simp_all
next
  case (Cons c s)
  then show ?case
    by (cases "utf8_decode_from (i + (length (utf8_encode_cp c) + length (concat (map utf8_encode_cp s)))) rest")
       (simp_all add: utf8_decode_encode_cp add.assoc)
qed

text \<open>
  Decoding the UTF-8 encoding of a Python string gives the string back.
\<close>

lemma str_encode_bytes_decode:
  assumes "pystr_wf s" "str_encode s = Inr bs"
  shows "bytes_decode bs = Inr s"
  using assms utf8_decode_concat by (auto simp: str_encode_def bytes_decode_def utf8_encode_from_Inr_iff)

text \<open>
  Encoding a string that was decoded gives back exactly the bytes it was
  decoded from: the decoder accepts only the encoder's output.
\<close>

lemma bytes_decode_str_encode:
  "bytes_decode bs = Inr s \<Longrightarrow> str_encode s = Inr bs"
  using utf8_decode_from_Inr [of 0 bs s]
  by (simp add: bytes_decode_def str_encode_def utf8_encode_from_Inr_iff)

text \<open>
  \<open>str.encode\<close> fails exactly when the string holds a lone surrogate,
  and the \<open>UnicodeEncodeError\<close> names the position of the first one.
\<close>

lemma str_encode_error:
  "str_encode s = Inl e \<longleftrightarrow>
     (\<exists>i < length s. e = UnicodeEncodeError i \<and> is_surrogate (s ! i) \<and>
        (\<forall>j < i. \<not> is_surrogate (s ! j)))"
  using utf8_encode_from_Inl_iff [of 0 s e] by (simp add: str_encode_def)

text \<open>
  What \<open>bytes.decode\<close> returns is a string of Unicode scalar values:
  every code point is at most U+10FFFF and none is a surrogate.
\<close>

lemma bytes_decode_valid:
  "bytes_decode bs = Inr s \<Longrightarrow> pystr_wf s \<and> (\<forall>c \<in> set s. \<not> is_surrogate c)"
  using utf8_decode_from_Inr [of 0 bs s] by (simp add: bytes_decode_def)

text \<open>
  Decoding is prefix-closed: bytes that decode are decoded the same way
  whatever follows them, and what follows is decoded from where they end (the
  error positions counted from the start of the whole input).
\<close>

lemma bytes_decode_append:
  "bytes_decode p = Inr s \<Longrightarrow>
     bytes_decode (p @ rest) =
       (case utf8_decode_from (length p) rest of Inl e \<Rightarrow> Inl e | Inr t \<Rightarrow> Inr (s @ t))"
  using utf8_decode_from_Inr [of 0 p s] utf8_decode_valid_prefix [of s 0 rest]
  by (simp add: bytes_decode_def)

end
