(* ===== verification/Inet.thy ===== *)
theory Inet
  imports Prelude
begin

text \<open>
  IPv4 socket addresses as the server hands them to the socket module.
  \<open>sock.bind((UDP_IP, UDP_PORT))\<close> (line 23) and
  \<open>sock.sendto(MSG_TX_BYTES, (src_ip, src_port))\<close> (line 41) pass a pair of a
  host string and a Python int; CPython's \<open>getsockaddrarg\<close> turns it into a
  \<open>struct sockaddr_in\<close>: the host through \<open>setipaddr\<close> (the empty string,
  \<open>"<broadcast>"\<close>, a dotted quad read by the C library's \<open>inet_pton\<close>, or
  else a name resolution), the port through a range check raising
  \<open>OverflowError\<close>.  \<open>sock.recvfrom\<close> (line 27) turns the sender's address
  back into a pair with \<open>makesockaddr\<close>, whose host is \<open>inet_ntop\<close>'s
  \<open>"%u.%u.%u.%u"\<close>.  The address is kept as its four bytes in network
  order, the port as a 16-bit word.
\<close>

datatype in_addr = InAddr byte byte byte byte

type_synonym port = "16 word"
type_synonym sockaddr_in = "in_addr \<times> port"

text \<open>Errors the socket module raises, with the errno values the model uses.\<close>

datatype errno = EINVAL | EADDRINUSE | EADDRNOTAVAIL | EACCES | EMSGSIZE

datatype sock_error = OSError errno | OverflowError | Gaierror

definition INADDR_ANY :: in_addr where
  "INADDR_ANY = InAddr 0 0 0 0"

definition INADDR_BROADCAST :: in_addr where
  "INADDR_BROADCAST = InAddr 255 255 255 255"

subsection \<open>\<open>inet_pton(AF_INET, ...)\<close>\<close>

text \<open>
  glibc's \<open>inet_pton4\<close>, character by character.  The state is the C
  function's: the four-byte buffer \<open>tmp\<close>, the index \<open>tp\<close> of the octet being
  read, \<open>saw_digit\<close> and the number \<open>octets\<close> of octets started.  A digit
  extends the current octet (\<open>new = *tp * 10 + (ch - '0')\<close>), refusing a
  leading zero and a value above 255 and a fifth octet; a dot closes an octet;
  anything else fails.  At the end four octets must have been read.
\<close>

fun inet_pton4_loop :: "bytes \<Rightarrow> nat \<Rightarrow> bool \<Rightarrow> nat \<Rightarrow> pystr \<Rightarrow> bytes option" where
  "inet_pton4_loop tmp tp saw_digit octets [] =
     (if octets < 4 then None else Some tmp)"
| "inet_pton4_loop tmp tp saw_digit octets (ch # src) =
     (if is_digit ch then
        (let new = unat (tmp ! tp) * 10 + (ch - 48) in
         if saw_digit \<and> tmp ! tp = 0 then None
         else if 255 < new then None
         else if \<not> saw_digit then
           (if 4 < Suc octets then None
            else inet_pton4_loop (tmp[tp := of_nat new]) tp True (Suc octets) src)
         else inet_pton4_loop (tmp[tp := of_nat new]) tp True octets src)
      else if ch = 46 \<and> saw_digit then
        (if octets = 4 then None
         else inet_pton4_loop (tmp[Suc tp := 0]) (Suc tp) False octets src)
      else None)"

definition in_addr_of_bytes :: "bytes \<Rightarrow> in_addr" where
  "in_addr_of_bytes tmp = InAddr (tmp ! 0) (tmp ! 1) (tmp ! 2) (tmp ! 3)"

definition inet_pton4 :: "pystr \<Rightarrow> in_addr option" where
  "inet_pton4 src = map_option in_addr_of_bytes (inet_pton4_loop [0, 0, 0, 0] 0 False 0 src)"

subsection \<open>\<open>inet_ntop(AF_INET, ...)\<close>\<close>

fun inet_ntop4 :: "in_addr \<Rightarrow> pystr" where
  "inet_ntop4 (InAddr a b c d) =
     dec_digits (unat a) @ [46] @ dec_digits (unat b) @ [46] @
     dec_digits (unat c) @ [46] @ dec_digits (unat d)"

subsection \<open>CPython's \<open>setipaddr\<close>, \<open>getsockaddrarg\<close> and \<open>makesockaddr\<close>\<close>

text \<open>
  A name that is not numeric is looked up by \<open>getaddrinfo\<close>; the model takes
  the host's resolver as a partial map (its \<open>None\<close> is \<open>socket.gaierror\<close>).
\<close>

type_synonym resolver = "pystr \<Rightarrow> in_addr option"

definition setipaddr :: "resolver \<Rightarrow> pystr \<Rightarrow> sock_error + in_addr" where
  "setipaddr resolve name =
     (if name = [] then Inr INADDR_ANY
      else if name = py_lit ''<broadcast>'' then Inr INADDR_BROADCAST
      else case inet_pton4 name of
        Some a \<Rightarrow> Inr a
      | None \<Rightarrow> (case resolve name of Some a \<Rightarrow> Inr a | None \<Rightarrow> Inl Gaierror))"

text \<open>
  \<open>getsockaddrarg\<close> for \<open>AF_INET\<close>: the port is parsed as a C \<open>int\<close> first
  (\<open>PyArg_ParseTuple\<close> with format \<open>"O&i"\<close>, OverflowError outside the C
  range), then the host is converted, then the port is range-checked.
\<close>

definition getsockaddrarg :: "resolver \<Rightarrow> pystr \<times> int \<Rightarrow> sock_error + sockaddr_in" where
  "getsockaddrarg resolve arg =
     (let (host, p) = arg in
      if p < - (2 ^ 31) \<or> 2 ^ 31 - 1 < p then Inl OverflowError
      else case setipaddr resolve host of
        Inl e \<Rightarrow> Inl e
      | Inr a \<Rightarrow> if p < 0 \<or> 65535 < p then Inl OverflowError else Inr (a, word_of_int p))"

definition makesockaddr :: "sockaddr_in \<Rightarrow> pystr \<times> int" where
  "makesockaddr sa = (inet_ntop4 (fst sa), int (unat (snd sa)))"

declare INADDR_ANY_def [model_defs] INADDR_BROADCAST_def [model_defs]
  in_addr_of_bytes_def [model_defs] inet_pton4_def [model_defs] setipaddr_def [model_defs]
  getsockaddrarg_def [model_defs] makesockaddr_def [model_defs] is_digit_def [model_defs]


subsection \<open>Reading back what \<open>inet_ntop\<close> wrote\<close>

lemma inet_pton4_loop_digits:
  assumes "n \<le> 255" "tp < length tmp" "tmp ! tp = 0" "octets < 4"
  shows "inet_pton4_loop tmp tp False octets (dec_digits n @ src)
           = inet_pton4_loop (tmp[tp := of_nat n]) tp True (Suc octets) src"
  using assms
proof (induction n arbitrary: src rule: dec_digits.induct)
  case (1 n)
  show ?case
  proof (cases "n < 10")
    case True
    with "1.prems" show ?thesis by (simp add: is_digit_def)
  next
    case False
    have q: "n div 10 \<le> 255" "0 < n div 10" "n div 10 < 256" using False "1.prems"(1) by auto
    have IH: "inet_pton4_loop tmp tp False octets (dec_digits (n div 10) @ (48 + n mod 10) # src)
        = inet_pton4_loop (tmp[tp := of_nat (n div 10)]) tp True (Suc octets) ((48 + n mod 10) # src)"
      using "1.IH" [OF False q(1) "1.prems"(2-4)] by blast
    have u: "unat (of_nat (n div 10) :: byte) = n div 10" using q(3) by (rule unat_byte_of_nat)
    have nz: "(of_nat (n div 10) :: byte) \<noteq> 0"
    proof
      assume "(of_nat (n div 10) :: byte) = 0"
      then have "unat (of_nat (n div 10) :: byte) = 0" by simp
      with u q(2) show False by simp
    qed
    have e: "n div 10 * 10 + n mod 10 = n" by simp
    have m: "n mod 10 \<le> 9" using mod_less_divisor [of 10 n] by linarith
    from "1.prems"(1,2) show ?thesis
      by (simp add: dec_digits_big [OF False] IH is_digit_def u nz e m)
  qed
qed

lemma inet_pton4_loop_dot:
  "inet_pton4_loop tmp tp True octets (46 # src)
     = (if octets = 4 then None else inet_pton4_loop (tmp[Suc tp := 0]) (Suc tp) False octets src)"
  by (simp add: is_digit_def)

lemma inet_pton4_ntop4: "inet_pton4 (inet_ntop4 a) = Some a"
proof (cases a)
  case (InAddr b0 b1 b2 b3)
  have u: "unat b \<le> 255" for b :: byte
  proof -
    have "unat b < 2 ^ LENGTH(8)" by (rule unsigned_less)
    then show ?thesis by simp
  qed
  show ?thesis using u
    by (simp add: InAddr inet_pton4_def in_addr_of_bytes_def inet_pton4_loop_digits
        inet_pton4_loop_digits [where src = "[]", simplified] inet_pton4_loop_dot
        inet_pton4_loop.simps(1) del: inet_pton4_loop.simps)
qed

lemma inet_ntop4_hd_digit: "inet_ntop4 a \<noteq> [] \<and> is_digit (hd (inet_ntop4 a))"
proof (cases a)
  case (InAddr b0 b1 b2 b3)
  have "dec_digits (unat b0) \<noteq> []" by simp
  then have "hd (dec_digits (unat b0)) \<in> set (dec_digits (unat b0))" by simp
  then have "is_digit (hd (dec_digits (unat b0)))" by (rule dec_digits_all_digits)
  then show ?thesis by (simp add: InAddr)
qed

text \<open>
  The address \<open>recvfrom\<close> reports, handed back to \<open>sendto\<close>, is converted to
  the very socket address it came from, whatever the resolver.
\<close>

lemma getsockaddrarg_makesockaddr: "getsockaddrarg resolve (makesockaddr sa) = Inr sa"
proof -
  obtain a p where sa: "sa = (a, p)" by (cases sa)
  have "inet_ntop4 a \<noteq> []" "is_digit (hd (inet_ntop4 a))" using inet_ntop4_hd_digit by blast+
  then have h: "inet_ntop4 a \<noteq> []" "inet_ntop4 a \<noteq> py_lit ''<broadcast>''"
    by (auto simp: is_digit_def)
  have "uint p < 2 ^ LENGTH(16)" by (rule unsigned_less)
  then have p1: "int (unat p) \<le> 65535" by simp
  have "0 \<le> uint p" by (rule unsigned_greater_eq)
  then have p2: "\<not> uint p < - 2147483648" by linarith
  show ?thesis using h p1 p2
    by (simp add: sa getsockaddrarg_def makesockaddr_def setipaddr_def inet_pton4_ntop4)
qed

end
