(* ===== verification/Socket.thy ===== *)
theory Socket
  imports Inet
begin

text \<open>
  The UDP socket the server creates, binds, reads and writes
  (\<open>udp_server.py\<close> lines 19, 23, 27 and 41), as CPython's \<open>socket\<close> module
  and the Linux kernel implement it for \<open>AF_INET\<close>, \<open>SOCK_DGRAM\<close>.
  The socket is a record: its local address once bound and its receive queue.
  The host is a record too: its interface addresses, the local addresses other
  sockets hold, its resolver, whether the process may bind ports below 1024, the
  port the kernel picks for an implicit bind, and the datagrams put on the wire
  so far.  Every call returns \<open>sock_error + _\<close>; \<open>recvfrom\<close> returns
  \<open>None\<close> when the queue is empty, which is the call blocking.
\<close>

datatype family = AF_INET | AF_INET6 | AF_UNIX
datatype socktype = SOCK_DGRAM | SOCK_STREAM

record datagram =
  dg_src :: sockaddr_in
  dg_dst :: sockaddr_in
  dg_payload :: bytes

record udp_socket =
  sk_family :: family
  sk_type :: socktype
  sk_local :: "sockaddr_in option"
  sk_rxq :: "datagram list"

record host =
  h_local_ips :: "in_addr list"
  h_bound :: "sockaddr_in list"
  h_resolve :: resolver
  h_privileged :: bool
  h_ephemeral :: port
  h_wire :: "datagram list"

subsection \<open>\<open>socket.socket(family, type)\<close>\<close>

definition sock_socket :: "family \<Rightarrow> socktype \<Rightarrow> udp_socket" where
  "sock_socket fam ty = \<lparr>sk_family = fam, sk_type = ty, sk_local = None, sk_rxq = []\<rparr>"

subsection \<open>\<open>sock.bind(address)\<close>\<close>

text \<open>
  Linux \<open>__inet_bind\<close>: the address must be \<open>INADDR_ANY\<close>, the broadcast
  address or one of the host's (\<open>EADDRNOTAVAIL\<close>); a port below 1024 needs
  the privilege (\<open>EACCES\<close>); a socket binds once (\<open>EINVAL\<close>); port 0 takes
  the kernel's choice; a port another socket holds on the same address or on
  the wildcard is refused (\<open>EADDRINUSE\<close>, no \<open>SO_REUSEADDR\<close>).
\<close>

definition addr_conflict :: "sockaddr_in list \<Rightarrow> sockaddr_in \<Rightarrow> bool" where
  "addr_conflict bound sa \<longleftrightarrow>
     (\<exists>(a', p') \<in> set bound. p' = snd sa \<and> (a' = fst sa \<or> a' = INADDR_ANY \<or> fst sa = INADDR_ANY))"

definition inet_bind :: "host \<Rightarrow> udp_socket \<Rightarrow> sockaddr_in \<Rightarrow> sock_error + (udp_socket \<times> host)" where
  "inet_bind h sk sa =
     (let (a, p) = sa in
      if a \<noteq> INADDR_ANY \<and> a \<noteq> INADDR_BROADCAST \<and> a \<notin> set (h_local_ips h)
        then Inl (OSError EADDRNOTAVAIL)
      else if p \<noteq> 0 \<and> unat p < 1024 \<and> \<not> h_privileged h then Inl (OSError EACCES)
      else if sk_local sk \<noteq> None then Inl (OSError EINVAL)
      else let sa' = (a, if p = 0 then h_ephemeral h else p) in
        if addr_conflict (h_bound h) sa' then Inl (OSError EADDRINUSE)
        else Inr (sk\<lparr>sk_local := Some sa'\<rparr>, h\<lparr>h_bound := sa' # h_bound h\<rparr>))"

definition sock_bind :: "host \<Rightarrow> udp_socket \<Rightarrow> pystr \<times> int \<Rightarrow> sock_error + (udp_socket \<times> host)" where
  "sock_bind h sk addr =
     (case getsockaddrarg (h_resolve h) addr of
        Inl e \<Rightarrow> Inl e
      | Inr sa \<Rightarrow> inet_bind h sk sa)"

subsection \<open>\<open>sock.recvfrom(bufsize)\<close>\<close>

text \<open>
  The first queued datagram is taken off the queue; at most \<open>bufsize\<close> bytes of
  it are returned and the rest is discarded (a UDP read without
  \<open>MSG_TRUNC\<close>); the sender's address is returned as a \<open>(host, port)\<close> pair.
\<close>

definition sock_recvfrom ::
  "nat \<Rightarrow> udp_socket \<Rightarrow> ((bytes \<times> (pystr \<times> int)) \<times> udp_socket) option" where
  "sock_recvfrom bufsize sk =
     (case sk_rxq sk of
        [] \<Rightarrow> None
      | d # q \<Rightarrow> Some ((take bufsize (dg_payload d), makesockaddr (dg_src d)), sk\<lparr>sk_rxq := q\<rparr>))"

subsection \<open>\<open>sock.sendto(data, address)\<close>\<close>

text \<open>
  CPython converts the address first (\<open>getsockaddrarg\<close>).  The kernel's
  \<open>inet_sendmsg\<close> then binds an unbound socket to the wildcard address and
  the kernel's port (\<open>inet_autobind\<close>), a binding that stays even if the send
  fails, and \<open>udp_sendmsg\<close> checks: more than 65535 bytes is \<open>EMSGSIZE\<close>,
  destination port 0 is \<open>EINVAL\<close>, the broadcast address without
  \<open>SO_BROADCAST\<close> is \<open>EACCES\<close>, a payload that does not fit one IPv4
  datagram with its 28 bytes of headers is \<open>EMSGSIZE\<close>.  The datagram's
  source is the bound address, the host's first interface address for the
  wildcard.  The result is paired with the socket and host after the call,
  since the autobind happens whatever the outcome.
\<close>

definition inet_autobind :: "host \<Rightarrow> udp_socket \<Rightarrow> sockaddr_in \<times> udp_socket \<times> host" where
  "inet_autobind h sk =
     (case sk_local sk of
        Some sa \<Rightarrow> (sa, sk, h)
      | None \<Rightarrow> let sa = (INADDR_ANY, h_ephemeral h) in
                (sa, sk\<lparr>sk_local := Some sa\<rparr>, h\<lparr>h_bound := sa # h_bound h\<rparr>))"

definition route_src :: "host \<Rightarrow> in_addr \<Rightarrow> in_addr" where
  "route_src h a = (if a = INADDR_ANY then (case h_local_ips h of [] \<Rightarrow> a | ip # _ \<Rightarrow> ip) else a)"

definition udp_sendmsg :: "host \<Rightarrow> sockaddr_in \<Rightarrow> bytes \<Rightarrow> sockaddr_in \<Rightarrow> (sock_error + nat) \<times> host" where
  "udp_sendmsg h local data dst =
     (if 65535 < length data then (Inl (OSError EMSGSIZE), h)
      else if snd dst = 0 then (Inl (OSError EINVAL), h)
      else if fst dst = INADDR_BROADCAST then (Inl (OSError EACCES), h)
      else if 65535 < length data + 28 then (Inl (OSError EMSGSIZE), h)
      else
        let d = \<lparr>dg_src = (route_src h (fst local), snd local), dg_dst = dst, dg_payload = data\<rparr>
        in (Inr (length data), h\<lparr>h_wire := h_wire h @ [d]\<rparr>))"

definition sock_sendto ::
  "host \<Rightarrow> udp_socket \<Rightarrow> bytes \<Rightarrow> pystr \<times> int \<Rightarrow> (sock_error + nat) \<times> udp_socket \<times> host" where
  "sock_sendto h sk data addr =
     (case getsockaddrarg (h_resolve h) addr of
        Inl e \<Rightarrow> (Inl e, sk, h)
      | Inr dst \<Rightarrow>
          let (local, sk', h') = inet_autobind h sk;
              (r, h'') = udp_sendmsg h' local data dst
          in (r, sk', h''))"

subsection \<open>Delivery\<close>

text \<open>
  The kernel queues an arriving datagram on the socket when its destination is
  the socket's address (the port equal, the address equal or the socket bound
  to the wildcard); any other datagram is not this socket's.  Before that,
  \<open>ip_route_input_slow\<close> drops a datagram with a martian source: a
  multicast address, the limited broadcast address, or an address of the zero
  network \<open>0.0.0.0/8\<close>.
\<close>

fun martian_src :: "in_addr \<Rightarrow> bool" where
  "martian_src (InAddr a b c d) \<longleftrightarrow>
     a = 0 \<or> (224 \<le> a \<and> a \<le> 239) \<or> InAddr a b c d = INADDR_BROADCAST"

definition addr_matches :: "sockaddr_in \<Rightarrow> sockaddr_in \<Rightarrow> bool" where
  "addr_matches local dst \<longleftrightarrow> snd dst = snd local \<and> (fst local = INADDR_ANY \<or> fst dst = fst local)"

definition deliver :: "datagram \<Rightarrow> udp_socket \<Rightarrow> udp_socket" where
  "deliver d sk =
     (case sk_local sk of
        Some local \<Rightarrow>
          if addr_matches local (dg_dst d) \<and> \<not> martian_src (fst (dg_src d))
          then sk\<lparr>sk_rxq := sk_rxq sk @ [d]\<rparr> else sk
      | None \<Rightarrow> sk)"

declare sock_socket_def [model_defs] addr_conflict_def [model_defs] inet_bind_def [model_defs]
  sock_bind_def [model_defs] sock_recvfrom_def [model_defs] route_src_def [model_defs]
  inet_autobind_def [model_defs]
  udp_sendmsg_def [model_defs] sock_sendto_def [model_defs] addr_matches_def [model_defs]
  deliver_def [model_defs] martian_src.simps [model_defs]

subsection \<open>Delivery, reading and answering\<close>

lemma deliver_local [simp]: "sk_local (deliver d sk) = sk_local sk"
  by (simp add: deliver_def split: option.split)

lemma deliver_rxq:
  "sk_local sk = Some l \<Longrightarrow>
     sk_rxq (deliver d sk) = sk_rxq sk @ (if addr_matches l (dg_dst d) \<and> \<not> martian_src (fst (dg_src d)) then [d] else [])"
  by (simp add: deliver_def)

text \<open>
  The receive queue of a bound socket is first in, first out: after a
  sequence of arrivals it holds what it held, followed by exactly the arrivals
  addressed to it, in the order they arrived; the binding is unchanged.
\<close>

lemma deliver_fold:
  assumes "sk_local sk = Some l"
  shows "sk_rxq (fold deliver ds sk) =
           sk_rxq sk @ filter (\<lambda>d. addr_matches l (dg_dst d) \<and> \<not> martian_src (fst (dg_src d))) ds \<and>
         sk_local (fold deliver ds sk) = Some l"
  using assms
proof (induction ds arbitrary: sk)
  case Nil
  then show ?case by simp
next
  case (Cons d ds)
  then have "sk_local (deliver d sk) = Some l" by simp
  with Cons.IH [of "deliver d sk"] Cons.prems show ?case by (simp add: deliver_rxq)
qed

text \<open>
  The \<open>(src_ip, src_port)\<close> pair \<open>recvfrom\<close> returns, given back to
  \<open>sendto\<close> on the bound socket, puts one datagram on the wire, from the
  socket's address to the very address the received datagram came from,
  carrying the bytes sent: unless that address has port 0 or is the broadcast
  address, or the payload does not fit one IPv4 datagram.
\<close>

lemma sendto_recvfrom_source:
  assumes "sk_rxq sk = d # q" "sock_recvfrom n sk = Some ((data, addr), sk1)" "sk_local sk = Some l"
    "snd (dg_src d) \<noteq> 0" "fst (dg_src d) \<noteq> INADDR_BROADCAST" "length bs \<le> 65507"
  shows "sock_sendto h sk1 bs addr =
           (Inr (length bs), sk1, h\<lparr>h_wire := h_wire h @
              [\<lparr>dg_src = (route_src h (fst l), snd l), dg_dst = dg_src d, dg_payload = bs\<rparr>]\<rparr>)"
proof -
  from assms(1,2) have a: "addr = makesockaddr (dg_src d)" and s: "sk1 = sk\<lparr>sk_rxq := q\<rparr>"
    by (auto simp: sock_recvfrom_def)
  show ?thesis using assms(3-6)
    by (simp add: a s sock_sendto_def getsockaddrarg_makesockaddr inet_autobind_def udp_sendmsg_def)
qed

end
