(* ===== verification/Server.thy ===== *)
theory Server
  imports Utf8 Socket
begin

text \<open>
  The script \<open>src/examples/udp_client/udp_server.py\<close> itself.  Its module
  constants (lines 9 to 16), its setup (lines 18 to 24: create the socket, bind it
  to \<open>10.0.0.1:44444\<close>, with the progress messages), and its loop (lines 26 to
  42): receive at most 256 bytes, decode them, print what arrived, and either
  reply \<open>"Hello CC3000"\<close> to the sender when the text is exactly
  \<open>"Hello World from CC3000"\<close> or print a complaint and go on.  An uncaught
  exception ends the process; the model's outcome says which.  The state between
  statements is a record of stdout, the socket, the host and the two module
  globals holding encoded bytes.
\<close>

datatype py_exc = SocketExc sock_error | UnicodeExc unicode_error

subsection \<open>Module constants, lines 9 to 16\<close>

definition UDP_IP :: pystr where
  "UDP_IP = py_lit ''10.0.0.1''"

definition UDP_PORT :: int where
  "UDP_PORT = 44444"

definition MSG_EXP :: pystr where
  "MSG_EXP = py_lit ''Hello World from CC3000''"

definition MSG_TX :: pystr where
  "MSG_TX = py_lit ''Hello CC3000''"

record server =
  sv_out :: pystr
  sv_sock :: udp_socket
  sv_host :: host
  sv_MSG_EXP_BYTES :: bytes
  sv_MSG_TX_BYTES :: bytes

text \<open>
  What a run ends in.  \<open>Continue\<close>: the loop is about to call \<open>recvfrom\<close>
  again.  \<open>Blocked\<close>: \<open>recvfrom\<close> waits, no datagram being queued.
  \<open>Crashed\<close>: an exception escaped the loop.  \<open>SetupFailed\<close>: an exception
  escaped before the loop, with what was printed and the host.
\<close>

datatype outcome =
    Continue server
  | Blocked server
  | Crashed py_exc server
  | SetupFailed py_exc pystr host

definition sv_print :: "pyval list \<Rightarrow> server \<Rightarrow> server" where
  "sv_print args s = s\<lparr>sv_out := py_print args (sv_out s)\<rparr>"

subsection \<open>Setup, lines 12 to 24\<close>

definition server_setup :: "host \<Rightarrow> outcome" where
  "server_setup h =
     (case str_encode MSG_EXP of
        Inl e \<Rightarrow> SetupFailed (UnicodeExc e) [] h
      | Inr exp_bytes \<Rightarrow>
        (case str_encode MSG_TX of
           Inl e \<Rightarrow> SetupFailed (UnicodeExc e) [] h
         | Inr tx_bytes \<Rightarrow>
           (let out1 = py_print [PyStr (py_lit ''Creating socket...'')] [];
                sk = sock_socket AF_INET SOCK_DGRAM;
                out2 = py_print [PyStr (py_lit ''Created!'')] out1;
                out3 = py_print [PyStr (py_lit ''Binding to:''), PyStr UDP_IP, PyStr (py_lit '':''),
                                 PyInt UDP_PORT] out2
            in (case sock_bind h sk (UDP_IP, UDP_PORT) of
                  Inl e \<Rightarrow> SetupFailed (SocketExc e) out3 h
                | Inr (sk', h') \<Rightarrow>
                    Continue \<lparr>sv_out = py_print [PyStr (py_lit ''Bound!'')] out3, sv_sock = sk',
                              sv_host = h', sv_MSG_EXP_BYTES = exp_bytes,
                              sv_MSG_TX_BYTES = tx_bytes\<rparr>))))"

subsection \<open>One pass of the loop, lines 27 to 42\<close>

text \<open>The four progress messages of lines 31 to 34.\<close>

definition print_received :: "pystr \<Rightarrow> pystr \<times> int \<Rightarrow> server \<Rightarrow> server" where
  "print_received data src s =
     sv_print [PyStr (py_lit ''src_port is: ''), PyInt (snd src)]
       (sv_print [PyStr (py_lit ''src_ip is: ''), PyStr (fst src)]
         (sv_print [PyStr (py_lit ''data is: ''), PyStr data]
           (sv_print [PyStr (py_lit ''Message Received:'')] s)))"

definition serve_once :: "server \<Rightarrow> outcome" where
  "serve_once s =
     (case sock_recvfrom 256 (sv_sock s) of
        None \<Rightarrow> Blocked s
      | Some ((data_bytes, (src_ip, src_port)), sk) \<Rightarrow>
        (let s1 = s\<lparr>sv_sock := sk\<rparr> in
         case bytes_decode data_bytes of
           Inl e \<Rightarrow> Crashed (UnicodeExc e) s1
         | Inr data \<Rightarrow>
           (let s2 = print_received data (src_ip, src_port) s1
            in if data \<noteq> MSG_EXP
               then Continue (sv_print [PyStr (py_lit ''Message text was not as expected.'')] s2)
               else
                 (let s3 = sv_print [PyStr (py_lit ''Sending Reply...'')] s2 in
                  case sock_sendto (sv_host s3) (sv_sock s3) (sv_MSG_TX_BYTES s3) (src_ip, src_port) of
                    (Inl e, sk', h') \<Rightarrow> Crashed (SocketExc e) (s3\<lparr>sv_sock := sk', sv_host := h'\<rparr>)
                  | (Inr _, sk', h') \<Rightarrow>
                      Continue (sv_print [PyStr (py_lit ''Sent!'')] (s3\<lparr>sv_sock := sk', sv_host := h'\<rparr>))))))"

subsection \<open>The loop, line 26\<close>

text \<open>
  \<open>while True\<close> runs passes until one blocks or raises.  Each pass that
  continues has taken one datagram off the receive queue, so the recursion ends:
  the loop drains the queue and then waits in \<open>recvfrom\<close>.
\<close>

function serve :: "server \<Rightarrow> outcome" where
  "serve s = (case serve_once s of Continue s' \<Rightarrow> serve s' | r \<Rightarrow> r)"
  by pat_completeness auto
termination
  by (relation "measure (\<lambda>s. length (sk_rxq (sv_sock s)))")
     (auto simp: serve_once_def sock_recvfrom_def sv_print_def print_received_def sock_sendto_def inet_autobind_def
           Let_def split: list.splits sum.splits option.splits prod.splits if_splits)

declare serve.simps [simp del]

definition main :: "host \<Rightarrow> outcome" where
  "main h = (case server_setup h of Continue s \<Rightarrow> serve s | r \<Rightarrow> r)"

subsection \<open>The state the loop runs in\<close>

text \<open>
  After setup the socket is bound to \<open>10.0.0.1:44444\<close> and the module globals
  hold the UTF-8 (here: ASCII) bytes of the two messages.  \<open>server_wf\<close> says
  so; every pass of the loop keeps it.
\<close>

definition server_addr :: sockaddr_in where
  "server_addr = (InAddr 10 0 0 1, 44444)"

definition ascii_bytes :: "pystr \<Rightarrow> bytes" where
  "ascii_bytes s = map of_nat s"

definition server_wf :: "server \<Rightarrow> bool" where
  "server_wf s \<longleftrightarrow>
     sk_local (sv_sock s) = Some server_addr \<and>
     sv_MSG_EXP_BYTES s = ascii_bytes MSG_EXP \<and> sv_MSG_TX_BYTES s = ascii_bytes MSG_TX"

subsection \<open>What the responder promises\<close>

text \<open>
  The contract of the spec (section 8): a datagram whose payload, as read, is
  the expected text is answered by exactly one datagram carrying the reply text,
  sent from the server's address back to the sender; any other datagram gets no
  answer.  \<open>reply_of\<close> is that answer.  \<open>handled\<close> says the loop gets through
  the datagram without an exception: its first 256 bytes decode, and when it
  matches, its sender is an address a reply can be sent to.
\<close>

definition reply_of :: "datagram \<Rightarrow> datagram option" where
  "reply_of d =
     (if take 256 (dg_payload d) = ascii_bytes MSG_EXP
      then Some \<lparr>dg_src = server_addr, dg_dst = dg_src d, dg_payload = ascii_bytes MSG_TX\<rparr>
      else None)"

definition handled :: "datagram \<Rightarrow> bool" where
  "handled d \<longleftrightarrow>
     (case bytes_decode (take 256 (dg_payload d)) of Inl _ \<Rightarrow> False | Inr _ \<Rightarrow> True) \<and>
     (take 256 (dg_payload d) = ascii_bytes MSG_EXP \<longrightarrow>
        snd (dg_src d) \<noteq> 0 \<and> fst (dg_src d) \<noteq> INADDR_BROADCAST)"

text \<open>
  What the script prints for a datagram it gets through, written out as text:
  the four reports of lines 31 to 34 (\<open>print\<close> puts a space after the
  label, which ends in a space itself), then either the complaint of line 37 or
  the two lines around the reply.
\<close>

definition report_of :: "datagram \<Rightarrow> pystr" where
  "report_of d =
     (case bytes_decode (take 256 (dg_payload d)) of
        Inl _ \<Rightarrow> []
      | Inr data \<Rightarrow>
          py_lit ''Message Received:'' @ [10] @
          py_lit ''data is:  '' @ data @ [10] @
          py_lit ''src_ip is:  '' @ inet_ntop4 (fst (dg_src d)) @ [10] @
          py_lit ''src_port is:  '' @ dec_digits (unat (snd (dg_src d))) @ [10] @
          (if data = MSG_EXP then py_lit ''Sending Reply...'' @ [10] @ py_lit ''Sent!'' @ [10]
           else py_lit ''Message text was not as expected.'' @ [10]))"

text \<open>
  The pass as it would read if line 36 compared the bytes received with the
  global \<open>MSG_EXP_BYTES\<close> of line 13, which the script computes and never
  uses, instead of the decoded text with \<open>MSG_EXP\<close>.  Everything else is
  \<open>serve_once\<close> unchanged.
\<close>

definition serve_once_bytes :: "server \<Rightarrow> outcome" where
  "serve_once_bytes s =
     (case sock_recvfrom 256 (sv_sock s) of
        None \<Rightarrow> Blocked s
      | Some ((data_bytes, (src_ip, src_port)), sk) \<Rightarrow>
        (let s1 = s\<lparr>sv_sock := sk\<rparr> in
         case bytes_decode data_bytes of
           Inl e \<Rightarrow> Crashed (UnicodeExc e) s1
         | Inr data \<Rightarrow>
           (let s2 = print_received data (src_ip, src_port) s1
            in if data_bytes \<noteq> sv_MSG_EXP_BYTES s
               then Continue (sv_print [PyStr (py_lit ''Message text was not as expected.'')] s2)
               else
                 (let s3 = sv_print [PyStr (py_lit ''Sending Reply...'')] s2 in
                  case sock_sendto (sv_host s3) (sv_sock s3) (sv_MSG_TX_BYTES s3) (src_ip, src_port) of
                    (Inl e, sk', h') \<Rightarrow> Crashed (SocketExc e) (s3\<lparr>sv_sock := sk', sv_host := h'\<rparr>)
                  | (Inr _, sk', h') \<Rightarrow>
                      Continue (sv_print [PyStr (py_lit ''Sent!'')] (s3\<lparr>sv_sock := sk', sv_host := h'\<rparr>))))))"

text \<open>The text \<open>print\<close> writes to stdout during setup, up to \<open>"Bound!"\<close>.\<close>

definition setup_out :: pystr where
  "setup_out = py_lit ''Creating socket...'' @ [10] @ py_lit ''Created!'' @ [10] @
     py_lit ''Binding to: 10.0.0.1 : 44444'' @ [10]"

subsection \<open>Concrete inputs for the witnesses\<close>

text \<open>
  A host where \<open>10.0.0.1\<close> is an interface address and nothing is bound, a
  client at \<open>10.0.0.2:5000\<close>, the expected datagram, another text, a byte that
  is no UTF-8, and a 257-byte datagram that is valid UTF-8 but whose 256-byte
  prefix ends inside a two-byte character.
\<close>

definition demo_host :: host where
  "demo_host = \<lparr>h_local_ips = [InAddr 10 0 0 1], h_bound = [], h_resolve = (\<lambda>_. None),
     h_privileged = False, h_ephemeral = 40000, h_wire = []\<rparr>"

definition demo_client :: sockaddr_in where
  "demo_client = (InAddr 10 0 0 2, 5000)"

definition demo_dgram :: "sockaddr_in \<Rightarrow> bytes \<Rightarrow> datagram" where
  "demo_dgram src payload = \<lparr>dg_src = src, dg_dst = server_addr, dg_payload = payload\<rparr>"

definition demo_hello :: datagram where
  "demo_hello = demo_dgram demo_client (ascii_bytes (py_lit ''Hello World from CC3000''))"

definition demo_other :: datagram where
  "demo_other = demo_dgram demo_client (ascii_bytes (py_lit ''Hi''))"

definition demo_bad :: datagram where
  "demo_bad = demo_dgram demo_client [0xFF]"

definition demo_long :: datagram where
  "demo_long = demo_dgram demo_client (replicate 255 (of_nat 97) @ [0xC3, 0xA9])"

definition demo_server :: "datagram list \<Rightarrow> server" where
  "demo_server q = \<lparr>sv_out = [],
     sv_sock = \<lparr>sk_family = AF_INET, sk_type = SOCK_DGRAM, sk_local = Some server_addr, sk_rxq = q\<rparr>,
     sv_host = demo_host, sv_MSG_EXP_BYTES = ascii_bytes MSG_EXP, sv_MSG_TX_BYTES = ascii_bytes MSG_TX\<rparr>"

declare UDP_IP_def [model_defs] UDP_PORT_def [model_defs] MSG_EXP_def [model_defs]
  MSG_TX_def [model_defs] sv_print_def [model_defs] server_setup_def [model_defs]
  serve_once_def [model_defs] main_def [model_defs] print_received_def [model_defs]
  server_addr_def [model_defs] ascii_bytes_def [model_defs] server_wf_def [model_defs]
  reply_of_def [model_defs] handled_def [model_defs]

lemmas demo_defs = demo_host_def demo_client_def demo_dgram_def demo_hello_def demo_other_def
  demo_bad_def demo_long_def demo_server_def

subsection \<open>Printing and the fields the loop reads\<close>

lemma sv_print_fields [simp]:
  "sv_sock (sv_print a s) = sv_sock s" "sv_host (sv_print a s) = sv_host s"
  "sv_MSG_EXP_BYTES (sv_print a s) = sv_MSG_EXP_BYTES s"
  "sv_MSG_TX_BYTES (sv_print a s) = sv_MSG_TX_BYTES s"
  by (simp_all add: sv_print_def)

lemma print_received_fields [simp]:
  "sv_sock (print_received d a s) = sv_sock s" "sv_host (print_received d a s) = sv_host s"
  "sv_MSG_EXP_BYTES (print_received d a s) = sv_MSG_EXP_BYTES s"
  "sv_MSG_TX_BYTES (print_received d a s) = sv_MSG_TX_BYTES s"
  by (simp_all add: print_received_def)

lemma MSG_EXP_ascii: "\<forall>c \<in> set MSG_EXP. c < 0x80"
  by (simp add: MSG_EXP_def)

lemma MSG_TX_ascii: "\<forall>c \<in> set MSG_TX. c < 0x80"
  by (simp add: MSG_TX_def)

lemma MSG_TX_length: "length (ascii_bytes MSG_TX) = 12"
  by (simp add: ascii_bytes_def MSG_TX_def)

lemma decoded_is_MSG_EXP_iff:
  "bytes_decode bs = Inr data \<Longrightarrow> data = MSG_EXP \<longleftrightarrow> bs = ascii_bytes MSG_EXP"
  using bytes_decode_eq_ascii_iff [OF _ MSG_EXP_ascii] by (simp add: ascii_bytes_def)

lemma decode_MSG_EXP_bytes: "bytes_decode (ascii_bytes MSG_EXP) = Inr MSG_EXP"
  using bytes_decode_ascii [OF MSG_EXP_ascii] by (simp add: ascii_bytes_def)

lemma reply_address_roundtrip:
  obtains ip pt where "makesockaddr sa = (ip, pt)" "\<And>res. getsockaddrarg res (ip, pt) = Inr sa"
proof -
  obtain ip pt where m: "makesockaddr sa = (ip, pt)" by (cases "makesockaddr sa")
  moreover have "getsockaddrarg res (ip, pt) = Inr sa" for res
    using getsockaddrarg_makesockaddr [of res sa] m by simp
  ultimately show ?thesis by (rule that)
qed

lemma serve_unfold_once: "serve_once s = r \<Longrightarrow> (\<And>s'. r \<noteq> Continue s') \<Longrightarrow> serve s = r"
  by (cases r) (auto simp: serve.simps [of s])

lemma serve_continue: "serve_once s = Continue s' \<Longrightarrow> serve s = serve s'"
  by (simp add: serve.simps [of s])

subsection \<open>One pass of the loop, branch by branch\<close>

lemma serve_once_blocked: "sk_rxq (sv_sock s) = [] \<Longrightarrow> serve_once s = Blocked s"
  by (simp add: serve_once_def sock_recvfrom_def)

lemma serve_once_mismatch:
  assumes "sk_rxq (sv_sock s) = d # q" "bytes_decode (take 256 (dg_payload d)) = Inr data"
    "data \<noteq> MSG_EXP"
  shows "serve_once s = Continue (sv_print [PyStr (py_lit ''Message text was not as expected.'')]
           (print_received data (makesockaddr (dg_src d)) (s\<lparr>sv_sock := sv_sock s\<lparr>sk_rxq := q\<rparr>\<rparr>)))"
  using assms by (simp add: serve_once_def sock_recvfrom_def)

lemma serve_once_match:
  assumes "server_wf s" "sk_rxq (sv_sock s) = d # q" "bytes_decode (take 256 (dg_payload d)) = Inr MSG_EXP"
    "snd (dg_src d) \<noteq> 0" "fst (dg_src d) \<noteq> INADDR_BROADCAST"
  shows "serve_once s = Continue (sv_print [PyStr (py_lit ''Sent!'')]
           (sv_print [PyStr (py_lit ''Sending Reply...'')]
             (print_received MSG_EXP (makesockaddr (dg_src d))
               (s\<lparr>sv_sock := sv_sock s\<lparr>sk_rxq := q\<rparr>,
                  sv_host := sv_host s\<lparr>h_wire := h_wire (sv_host s) @
                    [\<lparr>dg_src = server_addr, dg_dst = dg_src d, dg_payload = ascii_bytes MSG_TX\<rparr>]\<rparr>\<rparr>))))"
proof -
  have r: "route_src h (InAddr 10 0 0 1) = InAddr 10 0 0 1" for h
    by (simp add: route_src_def INADDR_ANY_def)
  obtain ip pt where m: "makesockaddr (dg_src d) = (ip, pt)"
    and g: "\<And>res. getsockaddrarg res (ip, pt) = Inr (dg_src d)"
    using reply_address_roundtrip [of "dg_src d"] by blast
  show ?thesis using assms MSG_TX_length r m g
    by (simp add: serve_once_def sock_recvfrom_def sock_sendto_def inet_autobind_def
        udp_sendmsg_def server_wf_def server_addr_def sv_print_def print_received_def)
qed

lemma serve_once_reply_fails:
  assumes "server_wf s" "sk_rxq (sv_sock s) = d # q" "take 256 (dg_payload d) = ascii_bytes MSG_EXP"
    "snd (dg_src d) = 0 \<or> fst (dg_src d) = INADDR_BROADCAST"
  shows "serve_once s = Crashed (SocketExc (OSError (if snd (dg_src d) = 0 then EINVAL else EACCES)))
           (sv_print [PyStr (py_lit ''Sending Reply...'')]
             (print_received MSG_EXP (makesockaddr (dg_src d)) (s\<lparr>sv_sock := sv_sock s\<lparr>sk_rxq := q\<rparr>\<rparr>)))"
proof -
  obtain ip pt where m: "makesockaddr (dg_src d) = (ip, pt)"
    and g: "\<And>res. getsockaddrarg res (ip, pt) = Inr (dg_src d)"
    using reply_address_roundtrip [of "dg_src d"] by blast
  show ?thesis using assms decode_MSG_EXP_bytes m g MSG_TX_length
    by (auto simp: serve_once_def sock_recvfrom_def sock_sendto_def inet_autobind_def
        udp_sendmsg_def server_wf_def sv_print_def print_received_def)
qed

lemma serve_once_handled:
  assumes "server_wf s" "sk_rxq (sv_sock s) = d # q" "handled d"
  shows "\<exists>s1. serve_once s = Continue s1 \<and> server_wf s1 \<and> sk_rxq (sv_sock s1) = q \<and>
           h_wire (sv_host s1) = h_wire (sv_host s) @ (case reply_of d of None \<Rightarrow> [] | Some r \<Rightarrow> [r]) \<and>
           sv_out s1 = sv_out s @ report_of d"
proof -
  from assms(3) obtain data where dec: "bytes_decode (take 256 (dg_payload d)) = Inr data"
    by (auto simp: handled_def split: sum.splits)
  show ?thesis
  proof (cases "data = MSG_EXP")
    case True
    with dec have m: "take 256 (dg_payload d) = ascii_bytes MSG_EXP"
      using decoded_is_MSG_EXP_iff by blast
    with assms(3) have "snd (dg_src d) \<noteq> 0" "fst (dg_src d) \<noteq> INADDR_BROADCAST"
      by (auto simp: handled_def)
    with assms(1,2) dec True m show ?thesis
      by (simp add: serve_once_match reply_of_def server_wf_def sv_print_def print_received_def
          report_of_def py_print_def py_str_int_def makesockaddr_def)
  next
    case False
    with dec have m: "take 256 (dg_payload d) \<noteq> ascii_bytes MSG_EXP"
      using decoded_is_MSG_EXP_iff by blast
    with assms(1,2) dec False show ?thesis
      by (simp add: serve_once_mismatch reply_of_def server_wf_def sv_print_def print_received_def
          report_of_def py_print_def py_str_int_def makesockaddr_def)
  qed
qed

lemma serve_once_unhandled:
  assumes "server_wf s" "sk_rxq (sv_sock s) = d # q" "\<not> handled d"
  shows "\<exists>e s'. serve_once s = Crashed e s' \<and> sk_rxq (sv_sock s') = q \<and>
           h_wire (sv_host s') = h_wire (sv_host s)"
proof (cases "bytes_decode (take 256 (dg_payload d))")
  case (Inl e)
  with assms(2) show ?thesis by (simp add: serve_once_def sock_recvfrom_def)
next
  case (Inr data)
  with assms(3) have m: "take 256 (dg_payload d) = ascii_bytes MSG_EXP"
    and f: "snd (dg_src d) = 0 \<or> fst (dg_src d) = INADDR_BROADCAST"
    by (auto simp: handled_def)
  from assms(1,2) m f show ?thesis
    by (simp add: serve_once_reply_fails sv_print_def print_received_def)
qed

subsection \<open>The loop against the contract\<close>

text \<open>
  C1.  Refinement of the responder's contract: from a well-formed state whose
  receive queue holds only datagrams the loop gets through, the loop drains the
  queue, keeps the state well-formed, and puts on the wire exactly the contract's
  replies to the queued datagrams, one per matching datagram and in their order.
\<close>

theorem serve_refines:
  assumes "server_wf s" "list_all handled (sk_rxq (sv_sock s))"
  shows "\<exists>s'. serve s = Blocked s' \<and> server_wf s' \<and> sk_rxq (sv_sock s') = [] \<and>
           h_wire (sv_host s') = h_wire (sv_host s) @ List.map_filter reply_of (sk_rxq (sv_sock s))"
  using assms
proof (induction "sk_rxq (sv_sock s)" arbitrary: s)
  case Nil
  then have "serve s = Blocked s" by (simp add: serve.simps [of s] serve_once_blocked)
  with Nil show ?case by (simp add: List.map_filter_simps)
next
  case (Cons d q)
  from Cons.hyps(2) Cons.prems have h: "server_wf s" "sk_rxq (sv_sock s) = d # q" "handled d"
    by (simp_all add: list_all_iff) (metis list.set_intros(1))
  then obtain s1 where s1: "serve_once s = Continue s1" "server_wf s1" "sk_rxq (sv_sock s1) = q"
    "h_wire (sv_host s1) = h_wire (sv_host s) @ (case reply_of d of None \<Rightarrow> [] | Some r \<Rightarrow> [r])"
    using serve_once_handled by blast
  have "list_all handled q" using Cons.prems(2) Cons.hyps(2) by (metis list.pred_inject(2))
  with Cons.hyps(1) [of s1] s1(2,3) obtain s' where
    "serve s1 = Blocked s'" "server_wf s'" "sk_rxq (sv_sock s') = []"
    "h_wire (sv_host s') = h_wire (sv_host s1) @ List.map_filter reply_of q"
    by blast
  moreover have "serve s = serve s1" using s1(1) by (rule serve_continue)
  ultimately show ?case using s1(4) Cons.hyps(2) [symmetric]
    by (auto simp: List.map_filter_simps split: option.splits)
qed

lemma demo_server_wf: "server_wf (demo_server q)"
  by (simp add: server_wf_def demo_server_def)

lemma demo_handled: "handled demo_hello" "handled demo_other"
  by (simp_all add: handled_def demo_hello_def demo_other_def demo_dgram_def ascii_bytes_def
      MSG_EXP_def bytes_decode_def utf8_cont_def demo_client_def INADDR_BROADCAST_def)

theorem serve_refines_witness:
  "server_wf (demo_server [demo_hello, demo_other]) \<and>
   list_all handled (sk_rxq (sv_sock (demo_server [demo_hello, demo_other]))) \<and>
   (\<exists>s'. serve (demo_server [demo_hello, demo_other]) = Blocked s' \<and> server_wf s' \<and>
      sk_rxq (sv_sock s') = [] \<and>
      h_wire (sv_host s') = h_wire (sv_host (demo_server [demo_hello, demo_other])) @
        List.map_filter reply_of (sk_rxq (sv_sock (demo_server [demo_hello, demo_other]))))"
  using serve_refines [of "demo_server [demo_hello, demo_other]"] demo_server_wf demo_handled
  by (simp add: demo_server_def)

text \<open>
  C14.  What the loop prints: from a well-formed state whose queue holds only
  datagrams the loop gets through, stdout gains, datagram after datagram in
  queue order, the four reports with the decoded text, the sender's dotted
  address and port, and then either the complaint or the two lines around the
  reply.
\<close>

theorem serve_output:
  assumes "server_wf s" "list_all handled (sk_rxq (sv_sock s))"
  shows "\<exists>s'. serve s = Blocked s' \<and> sv_out s' = sv_out s @ concat (map report_of (sk_rxq (sv_sock s)))"
  using assms
proof (induction "sk_rxq (sv_sock s)" arbitrary: s)
  case Nil
  then have "serve s = Blocked s" by (simp add: serve.simps [of s] serve_once_blocked)
  with Nil show ?case by simp
next
  case (Cons d q)
  from Cons.hyps(2) Cons.prems have h: "server_wf s" "sk_rxq (sv_sock s) = d # q" "handled d"
    by (simp_all add: list_all_iff) (metis list.set_intros(1))
  then obtain s1 where s1: "serve_once s = Continue s1" "server_wf s1" "sk_rxq (sv_sock s1) = q"
    "sv_out s1 = sv_out s @ report_of d"
    using serve_once_handled by blast
  have "list_all handled q" using Cons.prems(2) Cons.hyps(2) by (metis list.pred_inject(2))
  with Cons.hyps(1) [of s1] s1(2,3) obtain s' where
    "serve s1 = Blocked s'" "sv_out s' = sv_out s1 @ concat (map report_of q)"
    by blast
  moreover have "serve s = serve s1" using s1(1) by (rule serve_continue)
  ultimately show ?case using s1(4) Cons.hyps(2) [symmetric] by simp
qed

theorem serve_output_witness:
  "server_wf (demo_server [demo_hello, demo_other]) \<and>
   list_all handled (sk_rxq (sv_sock (demo_server [demo_hello, demo_other]))) \<and>
   (\<exists>s'. serve (demo_server [demo_hello, demo_other]) = Blocked s' \<and>
      sv_out s' = py_lit ''Message Received:'' @ [10] @ py_lit ''data is:  Hello World from CC3000'' @ [10] @
        py_lit ''src_ip is:  10.0.0.2'' @ [10] @ py_lit ''src_port is:  5000'' @ [10] @
        py_lit ''Sending Reply...'' @ [10] @ py_lit ''Sent!'' @ [10] @
        py_lit ''Message Received:'' @ [10] @ py_lit ''data is:  Hi'' @ [10] @
        py_lit ''src_ip is:  10.0.0.2'' @ [10] @ py_lit ''src_port is:  5000'' @ [10] @
        py_lit ''Message text was not as expected.'' @ [10])"
proof -
  have h: "server_wf (demo_server [demo_hello, demo_other])"
    "list_all handled (sk_rxq (sv_sock (demo_server [demo_hello, demo_other])))"
    using demo_server_wf demo_handled by (simp_all add: demo_server_def)
  have r: "sv_out (demo_server [demo_hello, demo_other]) @
      concat (map report_of (sk_rxq (sv_sock (demo_server [demo_hello, demo_other])))) =
      py_lit ''Message Received:'' @ [10] @ py_lit ''data is:  Hello World from CC3000'' @ [10] @
        py_lit ''src_ip is:  10.0.0.2'' @ [10] @ py_lit ''src_port is:  5000'' @ [10] @
        py_lit ''Sending Reply...'' @ [10] @ py_lit ''Sent!'' @ [10] @
        py_lit ''Message Received:'' @ [10] @ py_lit ''data is:  Hi'' @ [10] @
        py_lit ''src_ip is:  10.0.0.2'' @ [10] @ py_lit ''src_port is:  5000'' @ [10] @
        py_lit ''Message text was not as expected.'' @ [10]"
    by (simp add: model_defs demo_defs report_of_def)
  show ?thesis using h serve_output [OF h] r by simp
qed

text \<open>
  C2.  In a well-formed state, a datagram whose first 256 bytes are the
  expected message, sent from a port other than 0 and an address other than
  the broadcast address, is answered by exactly one datagram, from the
  server's address to the sender, carrying the bytes of \<open>MSG_TX\<close>; the
  datagram leaves the queue, the socket keeps its address, and stdout gets the
  four reports, \<open>Sending Reply...\<close> and \<open>Sent!\<close>.  (From port 0 the
  reply fails: C6.)
\<close>

theorem serve_once_answers:
  assumes "server_wf s" "sk_rxq (sv_sock s) = d # q"
    "take 256 (dg_payload d) = sv_MSG_EXP_BYTES s"
    "snd (dg_src d) \<noteq> 0" "fst (dg_src d) \<noteq> INADDR_BROADCAST"
  shows "\<exists>s'. serve_once s = Continue s' \<and> sk_rxq (sv_sock s') = q \<and>
           sk_local (sv_sock s') = sk_local (sv_sock s) \<and>
           h_wire (sv_host s') = h_wire (sv_host s) @
             [\<lparr>dg_src = server_addr, dg_dst = dg_src d, dg_payload = sv_MSG_TX_BYTES s\<rparr>] \<and>
           sv_out s' = sv_out (sv_print [PyStr (py_lit ''Sent!'')]
             (sv_print [PyStr (py_lit ''Sending Reply...'')]
               (print_received MSG_EXP (makesockaddr (dg_src d)) s)))"
proof -
  from assms(1,3) have "bytes_decode (take 256 (dg_payload d)) = Inr MSG_EXP"
    by (simp add: server_wf_def decode_MSG_EXP_bytes)
  with assms show ?thesis
    by (simp add: serve_once_match server_wf_def sv_print_def print_received_def)
qed

theorem serve_once_answers_witness:
  "server_wf (demo_server [demo_hello]) \<and>
   sk_rxq (sv_sock (demo_server [demo_hello])) = demo_hello # [] \<and>
   take 256 (dg_payload demo_hello) = sv_MSG_EXP_BYTES (demo_server [demo_hello]) \<and>
   snd (dg_src demo_hello) \<noteq> 0 \<and> fst (dg_src demo_hello) \<noteq> INADDR_BROADCAST \<and>
   (\<exists>s'. serve_once (demo_server [demo_hello]) = Continue s' \<and> sk_rxq (sv_sock s') = [] \<and>
      sk_local (sv_sock s') = sk_local (sv_sock (demo_server [demo_hello])) \<and>
      h_wire (sv_host s') = h_wire (sv_host (demo_server [demo_hello])) @
        [\<lparr>dg_src = server_addr, dg_dst = dg_src demo_hello,
          dg_payload = sv_MSG_TX_BYTES (demo_server [demo_hello])\<rparr>] \<and>
      sv_out s' = sv_out (sv_print [PyStr (py_lit ''Sent!'')]
        (sv_print [PyStr (py_lit ''Sending Reply...'')]
          (print_received MSG_EXP (makesockaddr (dg_src demo_hello)) (demo_server [demo_hello])))))"
proof -
  have h: "server_wf (demo_server [demo_hello])"
    "sk_rxq (sv_sock (demo_server [demo_hello])) = demo_hello # []"
    "take 256 (dg_payload demo_hello) = sv_MSG_EXP_BYTES (demo_server [demo_hello])"
    "snd (dg_src demo_hello) \<noteq> 0" "fst (dg_src demo_hello) \<noteq> INADDR_BROADCAST"
    by (simp_all add: model_defs demo_defs)
  show ?thesis using h serve_once_answers [OF h] by blast
qed

text \<open>
  C3.  A datagram that decodes to any other text is not answered: the pass
  prints the four reports and the complaint, takes the datagram off the queue,
  and changes nothing else (in particular the wire and the socket's address).
\<close>

theorem serve_once_ignores:
  assumes "sk_rxq (sv_sock s) = d # q" "bytes_decode (take 256 (dg_payload d)) = Inr data"
    "take 256 (dg_payload d) \<noteq> ascii_bytes MSG_EXP"
  shows "serve_once s = Continue (sv_print [PyStr (py_lit ''Message text was not as expected.'')]
           (print_received data (makesockaddr (dg_src d)) (s\<lparr>sv_sock := sv_sock s\<lparr>sk_rxq := q\<rparr>\<rparr>)))"
proof -
  from assms(2,3) have "data \<noteq> MSG_EXP" using decoded_is_MSG_EXP_iff by blast
  with assms(1,2) show ?thesis by (rule serve_once_mismatch)
qed

theorem serve_once_ignores_witness:
  "sk_rxq (sv_sock (demo_server [demo_other])) = demo_other # [] \<and>
   bytes_decode (take 256 (dg_payload demo_other)) = Inr (py_lit ''Hi'') \<and>
   take 256 (dg_payload demo_other) \<noteq> ascii_bytes MSG_EXP \<and>
   serve_once (demo_server [demo_other]) =
     Continue (sv_print [PyStr (py_lit ''Message text was not as expected.'')]
       (print_received (py_lit ''Hi'') (makesockaddr (dg_src demo_other))
         (demo_server [demo_other]\<lparr>sv_sock := sv_sock (demo_server [demo_other])\<lparr>sk_rxq := []\<rparr>\<rparr>)))"
proof -
  have h: "sk_rxq (sv_sock (demo_server [demo_other])) = demo_other # []"
    "bytes_decode (take 256 (dg_payload demo_other)) = Inr (py_lit ''Hi'')"
    "take 256 (dg_payload demo_other) \<noteq> ascii_bytes MSG_EXP"
    by (simp_all add: model_defs demo_defs)
  show ?thesis using h serve_once_ignores [OF h] by blast
qed

text \<open>
  C4.  The first datagram the loop cannot get through ends the process: the
  datagrams queued before it are answered as the contract says, the failing one
  is consumed, and nothing is sent for it.
\<close>

theorem serve_crash:
  assumes "server_wf s" "sk_rxq (sv_sock s) = ok @ d # rest" "list_all handled ok" "\<not> handled d"
  shows "\<exists>e s'. serve s = Crashed e s' \<and> sk_rxq (sv_sock s') = rest \<and>
           h_wire (sv_host s') = h_wire (sv_host s) @ List.map_filter reply_of ok"
  using assms
proof (induction ok arbitrary: s)
  case Nil
  then obtain e s' where "serve_once s = Crashed e s'" "sk_rxq (sv_sock s') = rest"
      "h_wire (sv_host s') = h_wire (sv_host s)"
    using serve_once_unhandled [of s d rest] by auto
  moreover then have "serve s = Crashed e s'" by (simp add: serve_unfold_once)
  ultimately show ?case by (simp add: List.map_filter_simps)
next
  case (Cons x ok)
  then have "handled x" "list_all handled ok" by simp_all
  with Cons.prems(1,2) obtain s1 where s1: "serve_once s = Continue s1" "server_wf s1"
    "sk_rxq (sv_sock s1) = ok @ d # rest"
    "h_wire (sv_host s1) = h_wire (sv_host s) @ (case reply_of x of None \<Rightarrow> [] | Some r \<Rightarrow> [r])"
    using serve_once_handled [of s x "ok @ d # rest"] by auto
  with Cons.IH [of s1] \<open>list_all handled ok\<close> Cons.prems(4) obtain e s' where
    "serve s1 = Crashed e s'" "sk_rxq (sv_sock s') = rest"
    "h_wire (sv_host s') = h_wire (sv_host s1) @ List.map_filter reply_of ok"
    by blast
  moreover have "serve s = serve s1" using s1(1) by (rule serve_continue)
  ultimately show ?case using s1(4)
    by (auto simp: List.map_filter_simps split: option.splits)
qed

lemma demo_bad_unhandled: "\<not> handled demo_bad"
  by (simp add: handled_def demo_bad_def demo_dgram_def bytes_decode_def)

theorem serve_crash_witness:
  "server_wf (demo_server [demo_hello, demo_bad, demo_other]) \<and>
   sk_rxq (sv_sock (demo_server [demo_hello, demo_bad, demo_other])) = [demo_hello] @ demo_bad # [demo_other] \<and>
   list_all handled [demo_hello] \<and> \<not> handled demo_bad \<and>
   (\<exists>e s'. serve (demo_server [demo_hello, demo_bad, demo_other]) = Crashed e s' \<and>
      sk_rxq (sv_sock s') = [demo_other] \<and>
      h_wire (sv_host s') = h_wire (sv_host (demo_server [demo_hello, demo_bad, demo_other])) @
        List.map_filter reply_of [demo_hello])"
proof -
  have h: "server_wf (demo_server [demo_hello, demo_bad, demo_other])"
    "sk_rxq (sv_sock (demo_server [demo_hello, demo_bad, demo_other])) = [demo_hello] @ demo_bad # [demo_other]"
    "list_all handled [demo_hello]" "\<not> handled demo_bad"
    by (simp_all add: model_defs demo_defs)
  show ?thesis using h serve_crash [OF h] by blast
qed

text \<open>
  C5.  A payload whose first 256 bytes are not UTF-8 raises
  \<open>UnicodeDecodeError\<close> out of \<open>data_bytes.decode()\<close>: the process ends with
  the datagram consumed, nothing printed for it and nothing sent.
\<close>

theorem serve_once_decode_error:
  assumes "sk_rxq (sv_sock s) = d # q" "bytes_decode (take 256 (dg_payload d)) = Inl e"
  shows "serve_once s = Crashed (UnicodeExc e) (s\<lparr>sv_sock := sv_sock s\<lparr>sk_rxq := q\<rparr>\<rparr>)"
  using assms by (simp add: serve_once_def sock_recvfrom_def)

theorem serve_once_decode_error_witness:
  "sk_rxq (sv_sock (demo_server [demo_bad])) = demo_bad # [] \<and>
   bytes_decode (take 256 (dg_payload demo_bad)) = Inl (UnicodeDecodeError InvalidStartByte 0) \<and>
   serve_once (demo_server [demo_bad]) = Crashed (UnicodeExc (UnicodeDecodeError InvalidStartByte 0))
     (demo_server [demo_bad]\<lparr>sv_sock := sv_sock (demo_server [demo_bad])\<lparr>sk_rxq := []\<rparr>\<rparr>)"
proof -
  have h: "sk_rxq (sv_sock (demo_server [demo_bad])) = demo_bad # []"
    "bytes_decode (take 256 (dg_payload demo_bad)) = Inl (UnicodeDecodeError InvalidStartByte 0)"
    by (simp_all add: model_defs demo_defs)
  show ?thesis using h serve_once_decode_error [OF h] by blast
qed

text \<open>
  C6.  The expected message sent from UDP source port 0 is not answered: the
  reply's destination port is 0, Linux refuses it with \<open>EINVAL\<close>, and the
  uncaught \<open>OSError\<close> ends the server after it printed \<open>Sending Reply...\<close>.
\<close>

theorem serve_once_reply_port0:
  assumes "server_wf s" "sk_rxq (sv_sock s) = d # q" "take 256 (dg_payload d) = ascii_bytes MSG_EXP"
    "snd (dg_src d) = 0"
  shows "serve_once s = Crashed (SocketExc (OSError EINVAL))
           (sv_print [PyStr (py_lit ''Sending Reply...'')]
             (print_received MSG_EXP (makesockaddr (dg_src d)) (s\<lparr>sv_sock := sv_sock s\<lparr>sk_rxq := q\<rparr>\<rparr>)))"
  using serve_once_reply_fails [OF assms(1-3)] assms(4) by simp

theorem serve_once_reply_port0_witness:
  "server_wf (demo_server [demo_dgram (InAddr 10 0 0 2, 0) (ascii_bytes MSG_EXP)]) \<and>
   sk_rxq (sv_sock (demo_server [demo_dgram (InAddr 10 0 0 2, 0) (ascii_bytes MSG_EXP)]))
     = demo_dgram (InAddr 10 0 0 2, 0) (ascii_bytes MSG_EXP) # [] \<and>
   take 256 (dg_payload (demo_dgram (InAddr 10 0 0 2, 0) (ascii_bytes MSG_EXP))) = ascii_bytes MSG_EXP \<and>
   snd (dg_src (demo_dgram (InAddr 10 0 0 2, 0) (ascii_bytes MSG_EXP))) = 0 \<and>
   serve_once (demo_server [demo_dgram (InAddr 10 0 0 2, 0) (ascii_bytes MSG_EXP)])
     = Crashed (SocketExc (OSError EINVAL))
         (sv_print [PyStr (py_lit ''Sending Reply...'')]
           (print_received MSG_EXP (makesockaddr (InAddr 10 0 0 2, 0))
             (demo_server [demo_dgram (InAddr 10 0 0 2, 0) (ascii_bytes MSG_EXP)]\<lparr>sv_sock :=
                sv_sock (demo_server [demo_dgram (InAddr 10 0 0 2, 0) (ascii_bytes MSG_EXP)])\<lparr>sk_rxq := []\<rparr>\<rparr>)))"
proof -
  have h: "server_wf (demo_server [demo_dgram (InAddr 10 0 0 2, 0) (ascii_bytes MSG_EXP)])"
    "sk_rxq (sv_sock (demo_server [demo_dgram (InAddr 10 0 0 2, 0) (ascii_bytes MSG_EXP)]))
       = demo_dgram (InAddr 10 0 0 2, 0) (ascii_bytes MSG_EXP) # []"
    "take 256 (dg_payload (demo_dgram (InAddr 10 0 0 2, 0) (ascii_bytes MSG_EXP))) = ascii_bytes MSG_EXP"
    "snd (dg_src (demo_dgram (InAddr 10 0 0 2, 0) (ascii_bytes MSG_EXP))) = 0"
    by (simp_all add: model_defs demo_defs)
  show ?thesis using h serve_once_reply_port0 [OF h] by (simp add: demo_dgram_def)
qed

subsection \<open>Setup\<close>

lemma MSG_encodings: "str_encode MSG_EXP = Inr (ascii_bytes MSG_EXP)" "str_encode MSG_TX = Inr (ascii_bytes MSG_TX)"
  by (simp_all add: str_encode_ascii MSG_EXP_ascii MSG_TX_ascii ascii_bytes_def)

lemma bind_UDP_addr:
  "getsockaddrarg res (UDP_IP, UDP_PORT) = Inr server_addr"
  by (simp add: getsockaddrarg_def setipaddr_def UDP_IP_def UDP_PORT_def server_addr_def
      inet_pton4_def in_addr_of_bytes_def is_digit_def)

lemma setup_prints:
  "py_print [PyStr (py_lit ''Binding to:''), PyStr UDP_IP, PyStr (py_lit '':''), PyInt UDP_PORT]
     (py_print [PyStr (py_lit ''Created!'')] (py_print [PyStr (py_lit ''Creating socket...'')] []))
   = setup_out"
  by (simp add: py_print_def setup_out_def UDP_IP_def UDP_PORT_def py_str_int_def dec_digits.simps)

lemma server_ip_specific: "InAddr 10 0 0 1 \<noteq> INADDR_ANY" "InAddr 10 0 0 1 \<noteq> INADDR_BROADCAST"
  by (simp_all add: INADDR_ANY_def INADDR_BROADCAST_def)

lemma main_unfold_bind:
  "main h = (case inet_bind h (sock_socket AF_INET SOCK_DGRAM) server_addr of
       Inl e \<Rightarrow> SetupFailed (SocketExc e) setup_out h
     | Inr (sk', h') \<Rightarrow> serve \<lparr>sv_out = py_print [PyStr (py_lit ''Bound!'')] setup_out, sv_sock = sk',
          sv_host = h', sv_MSG_EXP_BYTES = ascii_bytes MSG_EXP, sv_MSG_TX_BYTES = ascii_bytes MSG_TX\<rparr>)"
  unfolding main_def server_setup_def MSG_encodings sum.case Let_def setup_prints sock_bind_def
    bind_UDP_addr
  by (simp split: sum.split)

text \<open>
  C7.  On a host where \<open>10.0.0.1\<close> is an interface address and nobody holds
  port 44444 on it, the script prints its four setup lines, binds the socket to
  \<open>10.0.0.1:44444\<close> (recorded in the host), and, no datagram having arrived,
  waits in \<open>recvfrom\<close>, with the encoded messages in its globals.
\<close>

theorem main_blocks:
  assumes "InAddr 10 0 0 1 \<in> set (h_local_ips h)" "\<not> addr_conflict (h_bound h) server_addr"
  shows "main h = Blocked \<lparr>sv_out = py_print [PyStr (py_lit ''Bound!'')] setup_out,
    sv_sock = \<lparr>sk_family = AF_INET, sk_type = SOCK_DGRAM, sk_local = Some server_addr, sk_rxq = []\<rparr>,
    sv_host = h\<lparr>h_bound := server_addr # h_bound h\<rparr>,
    sv_MSG_EXP_BYTES = ascii_bytes MSG_EXP, sv_MSG_TX_BYTES = ascii_bytes MSG_TX\<rparr>"
proof -
  have b: "server_addr = (InAddr 10 0 0 1, 44444)" by (simp add: server_addr_def)
  show ?thesis using assms server_ip_specific
    by (simp add: main_unfold_bind inet_bind_def b sock_socket_def serve.simps serve_once_blocked Let_def)
qed

theorem main_blocks_witness:
  "InAddr 10 0 0 1 \<in> set (h_local_ips demo_host) \<and> \<not> addr_conflict (h_bound demo_host) server_addr \<and>
   main demo_host = Blocked \<lparr>sv_out = py_print [PyStr (py_lit ''Bound!'')] setup_out,
    sv_sock = \<lparr>sk_family = AF_INET, sk_type = SOCK_DGRAM, sk_local = Some server_addr, sk_rxq = []\<rparr>,
    sv_host = demo_host\<lparr>h_bound := server_addr # h_bound demo_host\<rparr>,
    sv_MSG_EXP_BYTES = ascii_bytes MSG_EXP, sv_MSG_TX_BYTES = ascii_bytes MSG_TX\<rparr>"
proof -
  have h: "InAddr 10 0 0 1 \<in> set (h_local_ips demo_host)" "\<not> addr_conflict (h_bound demo_host) server_addr"
    by (simp_all add: model_defs demo_defs)
  show ?thesis using h main_blocks [OF h] by blast
qed

text \<open>
  C8.  When \<open>10.0.0.1\<close> is not an address of the host, or another socket
  holds port 44444 on it or on the wildcard address, \<open>bind\<close> raises
  (\<open>EADDRNOTAVAIL\<close>, resp. \<open>EADDRINUSE\<close>) after the three setup lines were
  printed, and the loop never starts.
\<close>

theorem main_bind_fails:
  assumes "InAddr 10 0 0 1 \<notin> set (h_local_ips h) \<or> addr_conflict (h_bound h) server_addr"
  shows "main h = SetupFailed (SocketExc (OSError
           (if InAddr 10 0 0 1 \<in> set (h_local_ips h) then EADDRINUSE else EADDRNOTAVAIL))) setup_out h"
proof -
  have b: "server_addr = (InAddr 10 0 0 1, 44444)" by (simp add: server_addr_def)
  show ?thesis using assms server_ip_specific
    by (auto simp: main_unfold_bind inet_bind_def b sock_socket_def Let_def)
qed

theorem main_bind_fails_witness:
  "addr_conflict (h_bound (demo_host\<lparr>h_bound := [server_addr]\<rparr>)) server_addr \<and>
   main (demo_host\<lparr>h_bound := [server_addr]\<rparr>) =
     SetupFailed (SocketExc (OSError EADDRINUSE)) setup_out (demo_host\<lparr>h_bound := [server_addr]\<rparr>)"
proof -
  have c: "addr_conflict (h_bound (demo_host\<lparr>h_bound := [server_addr]\<rparr>)) server_addr"
    by (simp add: model_defs demo_defs)
  then have h: "InAddr 10 0 0 1 \<notin> set (h_local_ips (demo_host\<lparr>h_bound := [server_addr]\<rparr>)) \<or>
    addr_conflict (h_bound (demo_host\<lparr>h_bound := [server_addr]\<rparr>)) server_addr" by blast
  have i: "InAddr 10 0 0 1 \<in> set (h_local_ips (demo_host\<lparr>h_bound := [server_addr]\<rparr>))"
    by (simp add: model_defs demo_defs)
  show ?thesis using c main_bind_fails [OF h] i by simp
qed

subsection \<open>The match test and the 256-byte read\<close>

text \<open>
  C9.  In a well-formed state, the pass of the loop is the same function
  whether line 36 compares the decoded text with \<open>MSG_EXP\<close>, as the script
  does, or the bytes received with the unused global \<open>MSG_EXP_BYTES\<close>: on
  every queue, the same outcome, the same output and the same replies.
\<close>

theorem serve_once_bytes_eq:
  assumes "server_wf s"
  shows "serve_once_bytes s = serve_once s"
proof (cases "sk_rxq (sv_sock s)")
  case Nil
  then show ?thesis by (simp add: serve_once_def serve_once_bytes_def sock_recvfrom_def)
next
  case (Cons d q)
  show ?thesis
  proof (cases "bytes_decode (take 256 (dg_payload d))")
    case (Inl e)
    with Cons show ?thesis by (simp add: serve_once_def serve_once_bytes_def sock_recvfrom_def)
  next
    case (Inr data)
    then have "data = MSG_EXP \<longleftrightarrow> take 256 (dg_payload d) = sv_MSG_EXP_BYTES s"
      using assms decoded_is_MSG_EXP_iff by (simp add: server_wf_def)
    with Cons Inr show ?thesis
      by (simp add: serve_once_def serve_once_bytes_def sock_recvfrom_def Let_def)
  qed
qed

theorem serve_once_bytes_eq_witness:
  "server_wf (demo_server [demo_hello, demo_other]) \<and>
   serve_once_bytes (demo_server [demo_hello, demo_other]) = serve_once (demo_server [demo_hello, demo_other])"
proof -
  have h: "server_wf (demo_server [demo_hello, demo_other])" by (simp add: model_defs demo_defs)
  show ?thesis using h serve_once_bytes_eq [OF h] by blast
qed

lemma utf8_lead_byte_alone:
  "0xC2 \<le> unat b \<Longrightarrow> unat b \<le> 0xF4 \<Longrightarrow>
     utf8_decode_from i [b] = Inl (UnicodeDecodeError UnexpectedEndOfData i)"
  by simp

lemma replicate_ascii: "\<forall>c \<in> set (replicate n (97::nat)). c < 0x80"
  by simp

text \<open>
  C10.  \<open>recvfrom(256)\<close> cuts a longer datagram, and the cut can fall inside
  a character: when the first 255 bytes of a datagram of more than 256 bytes
  decode and byte 256 starts a multi-byte sequence, the bytes read end in a
  lone lead byte and the server dies with \<open>UnicodeDecodeError\<close> (unexpected
  end of data at position 255), whatever follows in the datagram, also when
  the whole datagram is valid UTF-8.
\<close>

theorem serve_once_truncation_crash:
  assumes "sk_rxq (sv_sock s) = d # q" "256 < length (dg_payload d)"
    "bytes_decode (take 255 (dg_payload d)) = Inr t"
    "0xC2 \<le> unat (dg_payload d ! 255)" "unat (dg_payload d ! 255) \<le> 0xF4"
  shows "serve_once s =
           Crashed (UnicodeExc (UnicodeDecodeError UnexpectedEndOfData 255)) (s\<lparr>sv_sock := sv_sock s\<lparr>sk_rxq := q\<rparr>\<rparr>)"
proof -
  have t: "take 256 (dg_payload d) = take 255 (dg_payload d) @ [dg_payload d ! 255]"
    using assms(2) take_Suc_conv_app_nth [of 255 "dg_payload d"] by simp
  have l: "length (take 255 (dg_payload d)) = 255" using assms(2) by simp
  have "bytes_decode (take 256 (dg_payload d)) = Inl (UnicodeDecodeError UnexpectedEndOfData 255)"
    using bytes_decode_append [OF assms(3), of "[dg_payload d ! 255]"] l assms(4,5)
    by (simp add: t utf8_lead_byte_alone)
  with assms(1) show ?thesis by (simp add: serve_once_def sock_recvfrom_def)
qed

theorem serve_once_truncation_crash_witness:
  "bytes_decode (dg_payload demo_long) = Inr (replicate 255 97 @ [0xE9]) \<and>
   serve_once (demo_server [demo_long]) =
     Crashed (UnicodeExc (UnicodeDecodeError UnexpectedEndOfData 255))
       (demo_server [demo_long]\<lparr>sv_sock := sv_sock (demo_server [demo_long])\<lparr>sk_rxq := []\<rparr>\<rparr>)"
proof -
  have full: "bytes_decode (dg_payload demo_long) = Inr (replicate 255 97 @ [0xE9])"
    using utf8_decode_ascii_prefix [OF replicate_ascii, of 0 255 "[0xC3, 0xA9]"]
    by (simp add: bytes_decode_def demo_long_def demo_dgram_def utf8_cont_def utf8_second_ok_def)
  have p: "dg_payload demo_long = map of_nat (replicate 255 97) @ [0xC3, 0xA9]"
    by (simp add: demo_long_def demo_dgram_def)
  have h: "sk_rxq (sv_sock (demo_server [demo_long])) = demo_long # []"
    "256 < length (dg_payload demo_long)"
    "bytes_decode (take 255 (dg_payload demo_long)) = Inr (replicate 255 97)"
    "0xC2 \<le> unat (dg_payload demo_long ! 255)" "unat (dg_payload demo_long ! 255) \<le> 0xF4"
    using bytes_decode_ascii [OF replicate_ascii, of 255]
    by (simp_all add: demo_server_def p nth_append)
  show ?thesis using full serve_once_truncation_crash [OF h] by blast
qed

subsection \<open>The loop keeps its state well-formed\<close>

text \<open>
  C11.  A pass of the loop that goes on keeps the state well-formed: the socket
  stays bound to \<open>10.0.0.1:44444\<close> (the implicit bind of \<open>sendto\<close> does not
  fire) and the module globals keep the encoded messages.
\<close>

theorem serve_once_keeps_wf:
  assumes "server_wf s" "serve_once s = Continue s'"
  shows "server_wf s'"
proof (cases "sk_rxq (sv_sock s)")
  case Nil
  with assms(2) show ?thesis by (simp add: serve_once_blocked)
next
  case (Cons d q)
  show ?thesis
  proof (cases "bytes_decode (take 256 (dg_payload d))")
    case (Inl e)
    with Cons assms(2) show ?thesis by (simp add: serve_once_def sock_recvfrom_def)
  next
    case (Inr data)
    show ?thesis
    proof (cases "data = MSG_EXP")
      case False
      with Cons Inr assms show ?thesis
        by (auto simp: serve_once_mismatch server_wf_def sv_print_def print_received_def)
    next
      case True
      with Inr have m: "take 256 (dg_payload d) = ascii_bytes MSG_EXP"
        using decoded_is_MSG_EXP_iff by blast
      show ?thesis
      proof (cases "snd (dg_src d) = 0 \<or> fst (dg_src d) = INADDR_BROADCAST")
        case True
        with assms Cons m show ?thesis by (simp add: serve_once_reply_fails)
      next
        case False
        with assms Cons Inr \<open>data = MSG_EXP\<close> show ?thesis
          by (auto simp: serve_once_match server_wf_def sv_print_def print_received_def)
      qed
    qed
  qed
qed

theorem serve_once_keeps_wf_witness:
  "server_wf (demo_server [demo_hello]) \<and> serve_once (demo_server [demo_hello]) =
     Continue (sv_print [PyStr (py_lit ''Sent!'')] (sv_print [PyStr (py_lit ''Sending Reply...'')]
       (print_received MSG_EXP (makesockaddr (dg_src demo_hello))
         (demo_server [demo_hello]\<lparr>sv_sock := sv_sock (demo_server [demo_hello])\<lparr>sk_rxq := []\<rparr>,
           sv_host := sv_host (demo_server [demo_hello])\<lparr>h_wire := h_wire (sv_host (demo_server [demo_hello])) @
             [\<lparr>dg_src = server_addr, dg_dst = dg_src demo_hello, dg_payload = ascii_bytes MSG_TX\<rparr>]\<rparr>\<rparr>)))) \<and>
   server_wf (sv_print [PyStr (py_lit ''Sent!'')] (sv_print [PyStr (py_lit ''Sending Reply...'')]
       (print_received MSG_EXP (makesockaddr (dg_src demo_hello))
         (demo_server [demo_hello]\<lparr>sv_sock := sv_sock (demo_server [demo_hello])\<lparr>sk_rxq := []\<rparr>,
           sv_host := sv_host (demo_server [demo_hello])\<lparr>h_wire := h_wire (sv_host (demo_server [demo_hello])) @
             [\<lparr>dg_src = server_addr, dg_dst = dg_src demo_hello, dg_payload = ascii_bytes MSG_TX\<rparr>]\<rparr>\<rparr>))))"
proof -
  have w: "server_wf (demo_server [demo_hello])" by (simp add: server_wf_def demo_server_def)
  have d: "bytes_decode (take 256 (dg_payload demo_hello)) = Inr MSG_EXP"
    by (simp add: model_defs demo_defs)
  have p: "snd (dg_src demo_hello) \<noteq> 0" "fst (dg_src demo_hello) \<noteq> INADDR_BROADCAST"
    by (simp_all add: model_defs demo_defs)
  have r: "sk_rxq (sv_sock (demo_server [demo_hello])) = demo_hello # []" by (simp add: demo_server_def)
  have c: "serve_once (demo_server [demo_hello]) =
     Continue (sv_print [PyStr (py_lit ''Sent!'')] (sv_print [PyStr (py_lit ''Sending Reply...'')]
       (print_received MSG_EXP (makesockaddr (dg_src demo_hello))
         (demo_server [demo_hello]\<lparr>sv_sock := sv_sock (demo_server [demo_hello])\<lparr>sk_rxq := []\<rparr>,
           sv_host := sv_host (demo_server [demo_hello])\<lparr>h_wire := h_wire (sv_host (demo_server [demo_hello])) @
             [\<lparr>dg_src = server_addr, dg_dst = dg_src demo_hello, dg_payload = ascii_bytes MSG_TX\<rparr>]\<rparr>\<rparr>))))"
    by (rule serve_once_match [OF w r d p])
  show ?thesis using w c serve_once_keeps_wf [OF w c] by blast
qed

subsection \<open>Facts the system-level theorems build on\<close>

lemma server_setup_binds:
  assumes "InAddr 10 0 0 1 \<in> set (h_local_ips h)" "\<not> addr_conflict (h_bound h) server_addr"
  shows "server_setup h = Continue \<lparr>sv_out = py_print [PyStr (py_lit ''Bound!'')] setup_out,
    sv_sock = \<lparr>sk_family = AF_INET, sk_type = SOCK_DGRAM, sk_local = Some server_addr, sk_rxq = []\<rparr>,
    sv_host = h\<lparr>h_bound := server_addr # h_bound h\<rparr>,
    sv_MSG_EXP_BYTES = ascii_bytes MSG_EXP, sv_MSG_TX_BYTES = ascii_bytes MSG_TX\<rparr>"
proof -
  have b: "server_addr = (InAddr 10 0 0 1, 44444)" by (simp add: server_addr_def)
  show ?thesis using assms server_ip_specific
    unfolding server_setup_def MSG_encodings sum.case Let_def setup_prints sock_bind_def bind_UDP_addr
    by (simp add: inet_bind_def b sock_socket_def Let_def)
qed

lemma server_setup_Continue:
  assumes "server_setup h = Continue s"
  shows "server_wf s \<and> h_wire (sv_host s) = h_wire h \<and> sk_rxq (sv_sock s) = []"
proof -
  have b: "server_addr = (InAddr 10 0 0 1, 44444)" by (simp add: server_addr_def)
  show ?thesis using assms
    unfolding server_setup_def MSG_encodings sum.case Let_def setup_prints sock_bind_def bind_UDP_addr
    by (auto simp: inet_bind_def b sock_socket_def Let_def server_wf_def split: if_splits)
qed

lemma serve_once_Continue:
  assumes "server_wf s" "serve_once s = Continue s'"
  obtains d q where "sk_rxq (sv_sock s) = d # q" "handled d" "sk_rxq (sv_sock s') = q" "server_wf s'"
    "h_wire (sv_host s') = h_wire (sv_host s) @ (case reply_of d of None \<Rightarrow> [] | Some r \<Rightarrow> [r])"
proof (cases "sk_rxq (sv_sock s)")
  case Nil
  with assms(2) show ?thesis by (simp add: serve_once_blocked)
next
  case (Cons d q)
  show ?thesis
  proof (cases "handled d")
    case True
    with assms(1) Cons obtain s1 where "serve_once s = Continue s1" "server_wf s1" "sk_rxq (sv_sock s1) = q"
      "h_wire (sv_host s1) = h_wire (sv_host s) @ (case reply_of d of None \<Rightarrow> [] | Some r \<Rightarrow> [r])"
      using serve_once_handled by blast
    with assms(2) Cons True show ?thesis by (intro that) simp_all
  next
    case False
    with assms(1) Cons obtain e s1 where "serve_once s = Crashed e s1"
      using serve_once_unhandled by blast
    with assms(2) show ?thesis by simp
  qed
qed

lemma reply_of_Some:
  "handled d \<Longrightarrow> reply_of d = Some r \<Longrightarrow>
     dg_src r = server_addr \<and> dg_dst r = dg_src d \<and> dg_payload r = ascii_bytes MSG_TX \<and>
     snd (dg_dst r) \<noteq> 0 \<and> fst (dg_dst r) \<noteq> INADDR_BROADCAST"
  by (auto simp: reply_of_def handled_def split: if_splits)
end
