(* ===== verification/Spec2Isabelle.thy ===== *)
theory Spec2Isabelle
  imports Server
begin

text \<open>
  \<^bold>\<open>What is verified.\<close>  The repository's one program under \<open>src/\<close>,
  \<open>src/examples/udp_client/udp_server.py\<close>, the UDP responder the CC3000
  example client talks to.  It encodes two messages (lines 12 to 16), creates a
  UDP socket and binds it to \<open>10.0.0.1:44444\<close> (lines 18 to 24), and then
  forever reads a datagram of at most 256 bytes, decodes it as UTF-8, prints it
  with its source, and answers \<open>"Hello CC3000"\<close> to the source exactly when
  the text is \<open>"Hello World from CC3000"\<close> (lines 26 to 42).  Nothing is
  caught: an exception ends the process.

  \<^bold>\<open>How the theories model it.\<close>  The script is a few lines of calls into
  CPython and the Linux kernel, so the model gives those calls the semantics
  the script relies on, and the script itself is translated statement by
  statement on top of them.
  \<^item> \<open>Prelude\<close>: bytes as \<open>8 word\<close> lists, Python strings as lists of code
    points (\<open>pystr\<close>), \<open>print\<close> (\<open>py_print\<close>, with \<open>sep=' '\<close> and
    \<open>end='\n'\<close>, and \<open>str()\<close> of an int through \<open>dec_digits\<close>), and the
    shared arithmetic on code points and bytes.
  \<^item> \<open>Utf8\<close>: \<open>str.encode\<close> (\<open>str_encode\<close>, lines 13 and 16) and
    \<open>bytes.decode\<close> (\<open>bytes_decode\<close>, line 29) as CPython's strict UTF-8
    codec, errors as \<open>Inl\<close> values carrying CPython's reason and position.
  \<^item> \<open>Inet\<close>: the conversion of \<open>(host, port)\<close> pairs (lines 23, 27, 41):
    CPython's \<open>getsockaddrarg\<close>, \<open>setipaddr\<close>, \<open>makesockaddr\<close>, glibc's
    \<open>inet_pton4\<close> character by character and \<open>inet_ntop\<close>.
  \<^item> \<open>Socket\<close>: the socket as a record (binding, receive queue) and the host
    as a record (interfaces, bindings, resolver, privilege, ephemeral port, the
    datagrams put on the wire); \<open>sock_socket\<close>, \<open>sock_bind\<close> with Linux's
    \<open>__inet_bind\<close> checks, \<open>sock_recvfrom\<close> (truncating to the buffer),
    \<open>sock_sendto\<close> with \<open>inet_autobind\<close> and \<open>udp_sendmsg\<close>'s checks, and the
    kernel's \<open>deliver\<close> of an arriving datagram (dropping martian sources).
  \<^item> \<open>Server\<close>: the script.  Its state is the record \<open>server\<close> (stdout, the
    socket, the host, the globals \<open>MSG_EXP_BYTES\<close> and \<open>MSG_TX_BYTES\<close>);
    \<open>server_setup\<close> is lines 12 to 24, \<open>serve_once\<close> one pass of the loop
    (lines 27 to 42), \<open>serve\<close> the loop, \<open>main\<close> the whole run.  The result is an
    \<open>outcome\<close>: \<open>Blocked\<close> (waiting in \<open>recvfrom\<close>), \<open>Crashed\<close> (an exception
    escaped the loop), \<open>SetupFailed\<close>, or \<open>Continue\<close> after one pass.
    \<open>reply_of\<close> and \<open>handled\<close> state the responder's contract and
    \<open>report_of\<close> the text printed per datagram; \<open>serve_once_bytes\<close> is the
    pass with line 36 comparing bytes with \<open>MSG_EXP_BYTES\<close>.
  \<^item> This theory: the system where datagrams arrive between passes, as the
    inductive relation \<open>reach\<close>.

  \<^bold>\<open>What is proved.\<close>  The claims are about the script; the codec, address
  and socket models are the layer they stand on, with their own lemmas
  (UTF-8 round trips and prefix-closure in \<open>Utf8\<close>, \<open>inet_pton4\<close> reading back
  \<open>inet_ntop\<close>'s text in \<open>Inet\<close>, FIFO delivery and reply-to-sender in
  \<open>Socket\<close>).
  \<^item> The loop refines the responder's contract: from a well-formed state the
    wire gains exactly \<open>List.map_filter reply_of\<close> of the datagrams read
    (\<open>Server.serve_refines\<close>), and stdout exactly their reports
    (\<open>Server.serve_output\<close>); across any interleaving of arrivals and passes
    (\<open>reach_refines\<close>), every datagram sent goes back to a sender with the
    reply text (\<open>reach_wire_safe\<close>).
  \<^item> Each branch of a pass exactly: answer (\<open>Server.serve_once_answers\<close>),
    ignore (\<open>Server.serve_once_ignores\<close>), decode error
    (\<open>Server.serve_once_decode_error\<close>), failed reply to port 0
    (\<open>Server.serve_once_reply_port0\<close>), the first unhandled datagram ending
    the loop (\<open>Server.serve_crash\<close>), a cut inside a character
    (\<open>Server.serve_once_truncation_crash\<close>); the invariant a continuing pass
    keeps (\<open>Server.serve_once_keeps_wf\<close>); the pass unchanged when it compares
    bytes with \<open>MSG_EXP_BYTES\<close> (\<open>Server.serve_once_bytes_eq\<close>).
  \<^item> The setup's outcome on a host where the bind succeeds
    (\<open>Server.main_blocks\<close>) or fails (\<open>Server.main_bind_fails\<close>).

  \<^bold>\<open>What modelling found.\<close>  The expected message from source port 0 makes
  \<open>sendto\<close> raise and kills the server (\<open>Server.serve_once_reply_port0\<close>);
  \<open>recvfrom(256)\<close> cuts longer datagrams and a cut inside a character kills it
  with \<open>UnicodeDecodeError\<close> (\<open>Server.serve_once_truncation_crash\<close>); any
  non-UTF-8 datagram kills it (\<open>Server.serve_once_decode_error\<close>);
  \<open>MSG_EXP_BYTES\<close> is unused, and comparing bytes with it would behave the
  same (\<open>Server.serve_once_bytes_eq\<close>).

  \<^bold>\<open>Bounds and fuel.\<close>  No fuel is used.  The loop \<open>serve\<close> is a
  \<open>function\<close> whose termination measure is the length of the receive queue:
  every pass that continues consumes one datagram, and with nothing queued
  \<open>recvfrom\<close> blocks, which the model returns as \<open>Blocked\<close>; datagrams that
  arrive later are steps of \<open>reach\<close>.  Ports are \<open>16 word\<close>, bytes
  \<open>8 word\<close>; the bounds the code checks (C \<open>int\<close> range, 0..65535, 65507
  payload bytes) are written out.

  \<^bold>\<open>Not modelled.\<close>  The CC3000 client (\<open>udp_client.c\<close>, not in the
  sources) except as the senders of datagrams; failures of \<open>socket()\<close> itself,
  receive-buffer overflow, signals, and the encoding of stdout; name
  resolution beyond a partial map of the host (the script passes only a
  numeric address to \<open>bind\<close>).  The host has no routing table: \<open>sendto\<close>
  never fails with \<open>ENETUNREACH\<close> or \<open>EHOSTUNREACH\<close>, and of the
  broadcast destinations only \<open>255.255.255.255\<close> is refused with \<open>EACCES\<close>
  (Linux also refuses a subnet's broadcast address).  Of the martian sources
  \<open>deliver\<close> drops multicast, limited broadcast and \<open>0.0.0.0/8\<close>, not
  loopback sources arriving on an external interface.  \<open>bind\<close> has no
  \<open>IP_FREEBIND\<close>, multicast binds or IPv6 dual-stack conflicts.
  \<open>inet_autobind\<close> takes the host's \<open>h_ephemeral\<close> port as the free port
  the kernel would pick; the server's socket is bound before it sends, so the
  autobind never fires there.
\<close>

section \<open>The server among arriving datagrams\<close>

text \<open>
  The script runs while datagrams arrive at any moment.  \<open>reach h0 ds s\<close>: after
  setup on host \<open>h0\<close>, some interleaving of arrivals (the kernel queueing a
  datagram on the socket, \<open>Socket.deliver\<close>) and passes of the loop
  (\<open>Server.serve_once\<close>) has led to state \<open>s\<close>, the loop having taken the
  datagrams \<open>ds\<close> off the queue, in this order.
\<close>

inductive reach :: "host \<Rightarrow> datagram list \<Rightarrow> server \<Rightarrow> bool" for h0 :: host where
  start: "server_setup h0 = Continue s \<Longrightarrow> reach h0 [] s"
| arrive: "reach h0 ds s \<Longrightarrow> reach h0 ds (s\<lparr>sv_sock := deliver d (sv_sock s)\<rparr>)"
| pass: "reach h0 ds s \<Longrightarrow> sk_rxq (sv_sock s) = d # q \<Longrightarrow> serve_once s = Continue s' \<Longrightarrow>
    reach h0 (ds @ [d]) s'"

lemma arrive_wf: "server_wf s \<Longrightarrow> server_wf (s\<lparr>sv_sock := deliver d (sv_sock s)\<rparr>)"
  by (simp add: server_wf_def)

lemma reach_server_wf: "reach h0 ds s \<Longrightarrow> server_wf s"
proof (induction rule: reach.induct)
  case (start s)
  then show ?case using server_setup_Continue by blast
next
  case (arrive ds s d)
  then show ?case by (simp add: arrive_wf)
next
  case (pass ds s d q s')
  then show ?case using serve_once_Continue [of s s'] by blast
qed

text \<open>
  C12.  Whatever the interleaving of arrivals and passes, as long as the server
  runs: it stays bound to \<open>10.0.0.1:44444\<close> with the encoded messages in its
  globals, every datagram it has taken off the queue was one it could handle,
  and the wire holds what it held before the script started followed by exactly
  the contract's replies to those datagrams, in the order they were read.
\<close>

theorem reach_refines:
  assumes "reach h0 ds s"
  shows "server_wf s \<and> list_all handled ds \<and>
         h_wire (sv_host s) = h_wire h0 @ List.map_filter reply_of ds"
  using assms
proof (induction rule: reach.induct)
  case (start s)
  then show ?case using server_setup_Continue [OF start] by simp
next
  case (arrive ds s d)
  then show ?case by (simp add: arrive_wf)
next
  case (pass ds s d q s')
  then obtain d' q' where "sk_rxq (sv_sock s) = d' # q'" "handled d'" "server_wf s'"
    "h_wire (sv_host s') = h_wire (sv_host s) @ (case reply_of d' of None \<Rightarrow> [] | Some r \<Rightarrow> [r])"
    using serve_once_Continue [of s s'] by blast
  with pass show ?case by (auto simp: List.map_filter_def split: option.splits)
qed

lemma demo_reach_hello: "\<exists>s. reach demo_host [demo_hello] s"
proof -
  have h: "InAddr 10 0 0 1 \<in> set (h_local_ips demo_host)" "\<not> addr_conflict (h_bound demo_host) server_addr"
    by (simp_all add: demo_host_def addr_conflict_def)
  obtain s0 where s0: "server_setup demo_host = Continue s0" using server_setup_binds [OF h] by blast
  let ?s1 = "s0\<lparr>sv_sock := deliver demo_hello (sv_sock s0)\<rparr>"
  have r1: "reach demo_host [] ?s1" using s0 by (intro reach.arrive reach.start)
  have w0: "server_wf s0" and q0: "sk_rxq (sv_sock s0) = []" using server_setup_Continue [OF s0] by simp_all
  have w1: "server_wf ?s1" using w0 by (rule arrive_wf)
  have q1: "sk_rxq (sv_sock ?s1) = demo_hello # []"
    using w0 q0 by (simp add: deliver_rxq server_wf_def addr_matches_def demo_hello_def demo_dgram_def
        demo_client_def INADDR_BROADCAST_def)
  obtain s2 where "serve_once ?s1 = Continue s2"
    using serve_once_handled [OF w1 q1 demo_handled(1)] by blast
  with r1 q1 have "reach demo_host ([] @ [demo_hello]) s2" by (intro reach.pass)
  then show ?thesis by auto
qed

theorem reach_refines_witness:
  "\<exists>s. reach demo_host [demo_hello] s \<and> server_wf s \<and> list_all handled [demo_hello] \<and>
     h_wire (sv_host s) = h_wire demo_host @ List.map_filter reply_of [demo_hello]"
proof -
  obtain s where r: "reach demo_host [demo_hello] s" using demo_reach_hello by blast
  show ?thesis using r reach_refines [OF r] by blast
qed

text \<open>
  C13.  Safety of what the server sends: on a host whose wire was empty when
  the script started, every datagram on the wire, at every reachable state,
  comes from \<open>10.0.0.1:44444\<close>, carries \<open>"Hello CC3000"\<close>, and goes back to
  the source of a datagram the server read, an address with a nonzero port that
  is not the broadcast address.
\<close>

theorem reach_wire_safe:
  assumes "reach h0 ds s" "h_wire h0 = []"
  shows "\<forall>r \<in> set (h_wire (sv_host s)). dg_src r = server_addr \<and> dg_payload r = ascii_bytes MSG_TX \<and>
           snd (dg_dst r) \<noteq> 0 \<and> fst (dg_dst r) \<noteq> INADDR_BROADCAST \<and> (\<exists>d \<in> set ds. dg_dst r = dg_src d)"
  using assms(1)
proof (induction rule: reach.induct)
  case (start s)
  then show ?case using server_setup_Continue [OF start] assms(2) by simp
next
  case (arrive ds s d)
  then show ?case by simp
next
  case (pass ds s d q s')
  have "server_wf s" using pass.hyps(1) by (rule reach_server_wf)
  then obtain d' q' where "sk_rxq (sv_sock s) = d' # q'" "handled d'"
    "h_wire (sv_host s') = h_wire (sv_host s) @ (case reply_of d' of None \<Rightarrow> [] | Some r \<Rightarrow> [r])"
    using serve_once_Continue [of s s'] pass.hyps(3) by blast
  with pass show ?case by (auto dest: reply_of_Some split: option.splits)
qed

theorem reach_wire_safe_witness:
  "h_wire demo_host = [] \<and>
   (\<exists>s. reach demo_host [demo_hello] s \<and>
     (\<forall>r \<in> set (h_wire (sv_host s)). dg_src r = server_addr \<and> dg_payload r = ascii_bytes MSG_TX \<and>
        snd (dg_dst r) \<noteq> 0 \<and> fst (dg_dst r) \<noteq> INADDR_BROADCAST \<and>
        (\<exists>d \<in> set [demo_hello]. dg_dst r = dg_src d)))"
proof -
  have e: "h_wire demo_host = []" by (simp add: demo_host_def)
  obtain s where r: "reach demo_host [demo_hello] s" using demo_reach_hello by blast
  show ?thesis using e r reach_wire_safe [OF r e] by blast
qed

end
